theory Spec2Isabelle
  imports Main "HOL-Library.Word"
begin

section \<open>Data model of the transaction core\<close>

text \<open>
  The Go package \<open>common\<close> declares the transaction structs, the classifier
  \<open>TransactionType\<close>, the viewer \<open>ViewGhostKey\<close>, the per-input signers
  \<open>SignUTXO\<close>, \<open>SignInput\<close>, \<open>SignRaw\<close>, the aggregated signer
  \<open>AggregateSign\<close> and the constructors \<open>NewTransactionV5\<close>, \<open>AddInput\<close>,
  \<open>AddOutputWithType\<close>. Fixed-size byte arrays (\<open>crypto.Hash\<close>, \<open>crypto.Key\<close>,
  \<open>crypto.Signature\<close>) are byte lists; a pointer that may be \<open>nil\<close> is an
  \<open>option\<close>; Go's \<open>uint\<close> and the non-negative \<open>int\<close> values (lengths, positions)
  are \<open>nat\<close>; the \<open>int\<close> argument of \<open>SignInput\<close>, which may be negative, is
  \<open>int\<close>. The receiver \<open>signed\<close> of the signers is written \<open>stx\<close> and a mask
  \<open>msk\<close>, since \<open>signed\<close> and \<open>mask\<close> are constants of the word library.
\<close>

type_synonym byte = "8 word"
type_synonym bytes = "byte list"
type_synonym hash = bytes
type_synonym key = bytes
type_synonym signature = bytes
type_synonym Script = bytes
type_synonym Integer = int

text \<open>The records behind the pointers of an input and an output are opaque here:
  the code only tests them against \<open>nil\<close>.\<close>

datatype DepositData = DepositData bytes
datatype MintData = MintData bytes
datatype WithdrawalData = WithdrawalData bytes

definition TxVersionHashSignature :: byte where "TxVersionHashSignature = 0x05"

definition OutputTypeScript :: byte where "OutputTypeScript = 0x00"
definition OutputTypeWithdrawalSubmit :: byte where "OutputTypeWithdrawalSubmit = 0xa1"
definition OutputTypeNodePledge :: byte where "OutputTypeNodePledge = 0xa3"
definition OutputTypeNodeAccept :: byte where "OutputTypeNodeAccept = 0xa4"
definition outputTypeNodeResign :: byte where "outputTypeNodeResign = 0xa5"
definition OutputTypeNodeRemove :: byte where "OutputTypeNodeRemove = 0xa6"
definition OutputTypeWithdrawalClaim :: byte where "OutputTypeWithdrawalClaim = 0xa9"
definition OutputTypeNodeCancel :: byte where "OutputTypeNodeCancel = 0xaa"
definition OutputTypeCustodianUpdateNodes :: byte where "OutputTypeCustodianUpdateNodes = 0xb1"
definition OutputTypeCustodianSlashNodes :: byte where "OutputTypeCustodianSlashNodes = 0xb2"

definition TransactionTypeScript :: byte where "TransactionTypeScript = 0x00"
definition TransactionTypeMint :: byte where "TransactionTypeMint = 0x01"
definition TransactionTypeDeposit :: byte where "TransactionTypeDeposit = 0x02"
definition TransactionTypeWithdrawalSubmit :: byte where "TransactionTypeWithdrawalSubmit = 0x03"
definition TransactionTypeWithdrawalClaim :: byte where "TransactionTypeWithdrawalClaim = 0x05"
definition TransactionTypeNodePledge :: byte where "TransactionTypeNodePledge = 0x06"
definition TransactionTypeNodeAccept :: byte where "TransactionTypeNodeAccept = 0x07"
definition transactionTypeNodeResign :: byte where "transactionTypeNodeResign = 0x08"
definition TransactionTypeNodeRemove :: byte where "TransactionTypeNodeRemove = 0x09"
definition TransactionTypeNodeCancel :: byte where "TransactionTypeNodeCancel = 0x12"
definition TransactionTypeCustodianUpdateNodes :: byte where "TransactionTypeCustodianUpdateNodes = 0x13"
definition TransactionTypeCustodianSlashNodes :: byte where "TransactionTypeCustodianSlashNodes = 0x14"
definition TransactionTypeUnknown :: byte where "TransactionTypeUnknown = 0xff"

record Input =
  Hash :: hash
  Index :: nat
  Genesis :: "bytes option"
  Deposit :: "DepositData option"
  Mint :: "MintData option"

record Output =
  Type :: byte
  Amount :: Integer
  Keys :: "key list"
  Mask :: key
  Script :: Script
  Withdrawal :: "WithdrawalData option"

record Transaction =
  Version :: byte
  Asset :: hash
  Inputs :: "Input list"
  Outputs :: "Output list"
  References :: "hash list"
  Extra :: bytes

record AggregatedSignature =
  Signers :: "nat list"
  Signature :: signature

text \<open>Go embeds \<open>Transaction\<close> in \<open>SignedTransaction\<close>: the embedded struct is the
  field \<open>Transaction\<close>, and \<open>signed.Inputs\<close> reads \<open>signed.Transaction.Inputs\<close>.\<close>

record SignedTransaction =
  Transaction :: Transaction
  AggregatedSignature :: "AggregatedSignature option"
  SignaturesMap :: "(16 word \<rightharpoonup> signature) list"

section \<open>TransactionType\<close>

text \<open>The first loop of \<open>TransactionType\<close>: \<open>Some t\<close> when the loop returns \<open>t\<close>,
  \<open>None\<close> when it falls through to the outputs.\<close>

fun type_of_inputs :: "Input list \<Rightarrow> byte option" where
  "type_of_inputs [] = None"
| "type_of_inputs (inp # ins) =
     (if Mint inp \<noteq> None then Some TransactionTypeMint
      else if Deposit inp \<noteq> None then Some TransactionTypeDeposit
      else if Genesis inp \<noteq> None then Some TransactionTypeUnknown
      else type_of_inputs ins)"

text \<open>The second loop, with the flag \<open>isScript\<close> as an accumulator, and the two
  returns after it.\<close>

fun type_of_outputs :: "Output list \<Rightarrow> bool \<Rightarrow> byte" where
  "type_of_outputs [] isScript =
     (if isScript then TransactionTypeScript else TransactionTypeUnknown)"
| "type_of_outputs (out # outs) isScript =
     (if Type out = OutputTypeWithdrawalSubmit then TransactionTypeWithdrawalSubmit
      else if Type out = OutputTypeWithdrawalClaim then TransactionTypeWithdrawalClaim
      else if Type out = OutputTypeNodePledge then TransactionTypeNodePledge
      else if Type out = OutputTypeNodeCancel then TransactionTypeNodeCancel
      else if Type out = OutputTypeNodeAccept then TransactionTypeNodeAccept
      else if Type out = OutputTypeNodeRemove then TransactionTypeNodeRemove
      else if Type out = OutputTypeCustodianUpdateNodes then TransactionTypeCustodianUpdateNodes
      else if Type out = OutputTypeCustodianSlashNodes then TransactionTypeCustodianSlashNodes
      else type_of_outputs outs (isScript \<and> Type out = OutputTypeScript))"

definition TransactionType :: "SignedTransaction \<Rightarrow> byte" where
  "TransactionType tx =
     (case type_of_inputs (Inputs (Transaction tx)) of
        Some t \<Rightarrow> t
      | None \<Rightarrow> type_of_outputs (Outputs (Transaction tx)) True)"

section \<open>External collaborators\<close>

text \<open>Modelled from the spec: the type \<open>Address\<close> is declared outside the files at
  hand; the code reads its two private keys when signing and its two public keys when
  adding an output, the four fields the specification lists.\<close>

record Address =
  PublicSpendKey :: key
  PublicViewKey :: key
  PrivateSpendKey :: key
  PrivateViewKey :: key

text \<open>Modelled from the spec: the type \<open>UTXO\<close> is declared outside the files at
  hand; its three fields read by the signers (\<open>utxo.Keys\<close>, \<open>utxo.Mask\<close>,
  \<open>utxo.Index\<close>) are the ones the specification lists. The field names carry a
  prefix because \<open>Output\<close> and \<open>Input\<close> already own \<open>Keys\<close>, \<open>Mask\<close> and
  \<open>Index\<close>.\<close>

record UTXO =
  utxoKeys :: "key list"
  utxoMask :: key
  utxoIndex :: nat

text \<open>Every error the signers return with \<open>fmt.Errorf\<close>, by the values formatted into
  its message, and the errors handed through from the reader and the curve library.\<close>

datatype error =
    InvalidKey Address
  | InvalidInputIndex int nat
  | InputNotFound hash nat
  | InvalidInputsCount nat
  | InvalidInputFormat
  | InvalidSignersOrder nat nat
  | InvalidPoint
  | InvalidScalar
  | ReaderError string

text \<open>A Go function either returns or panics. \<open>IndexOutOfRange i n\<close> is the runtime
  panic of indexing a slice of length \<open>n\<close> at \<open>i\<close>; \<open>PanicString s\<close> is
  \<open>panic(s)\<close>.\<close>

datatype panic = IndexOutOfRange int nat | PanicString string

datatype fault = Returned error | Panicked panic

datatype 'a outcome = Returns 'a | Panics panic

text \<open>\<open>reader.ReadUTXOKeys(hash, index)\<close> returns a pointer and an error:
  \<open>Inl err\<close> is a non-nil error, \<open>Inr None\<close> a nil pointer.\<close>

type_synonym UTXOKeysReader = "hash \<Rightarrow> nat \<Rightarrow> error + UTXO option"

text \<open>The functions of package \<open>crypto\<close>, of \<open>edwards25519\<close>, \<open>sha512\<close> and
  the payload hash \<open>signed.AsVersioned().PayloadHash()\<close> are used by this file and
  defined elsewhere: they are parameters of the model, gathered in one record.
  \<open>'p\<close> is the type of curve points, \<open>'s\<close> of scalars. A decoder that returns
  an error gives \<open>None\<close>.\<close>

record ('p, 's) primitives =
  PayloadHash :: "SignedTransaction \<Rightarrow> hash"
  ViewGhostOutputKey :: "key \<Rightarrow> key \<Rightarrow> key \<Rightarrow> nat \<Rightarrow> key"
  DeriveGhostPrivateKey :: "key \<Rightarrow> key \<Rightarrow> key \<Rightarrow> nat \<Rightarrow> key"
  DeriveGhostPublicKey :: "key \<Rightarrow> key \<Rightarrow> key \<Rightarrow> nat \<Rightarrow> key"
  Public :: "key \<Rightarrow> key"
  KeyString :: "key \<Rightarrow> string"
  Sign :: "key \<Rightarrow> hash \<Rightarrow> signature"
  NewKeyFromSeed :: "bytes \<Rightarrow> key"
  Blake3Hash :: "bytes \<Rightarrow> bytes"
  Sha512 :: "bytes \<Rightarrow> bytes"
  PointIdentity :: 'p
  PointSetBytes :: "bytes \<Rightarrow> 'p option"
  PointAdd :: "'p \<Rightarrow> 'p \<Rightarrow> 'p"
  PointBytes :: "'p \<Rightarrow> bytes"
  ScalarZero :: 's
  ScalarSetUniformBytes :: "bytes \<Rightarrow> 's option"
  ScalarSetCanonicalBytes :: "bytes \<Rightarrow> 's option"
  ScalarMultiplyAdd :: "'s \<Rightarrow> 's \<Rightarrow> 's \<Rightarrow> 's"
  ScalarAdd :: "'s \<Rightarrow> 's \<Rightarrow> 's"
  ScalarBytes :: "'s \<Rightarrow> bytes"

section \<open>ViewGhostKey\<close>

text \<open>The inner loop appends one viewed key per key of the output to \<open>out.Keys\<close>.\<close>

fun view_keys ::
  "('p, 's) primitives \<Rightarrow> key \<Rightarrow> key \<Rightarrow> nat \<Rightarrow> key list \<Rightarrow> key list \<Rightarrow> key list" where
  "view_keys c a msk i [] ks' = ks'"
| "view_keys c a msk i (k # ks) ks' =
     view_keys c a msk i ks (ks' @ [ViewGhostOutputKey c k a msk i])"

text \<open>The outer loop over \<open>tx.Outputs\<close> with its index \<open>i\<close>; \<open>outputs\<close> is the
  slice being built. The composite literal leaves \<open>Withdrawal\<close> nil.\<close>

fun view_outputs ::
  "('p, 's) primitives \<Rightarrow> key \<Rightarrow> nat \<Rightarrow> Output list \<Rightarrow> Output list \<Rightarrow> Output list" where
  "view_outputs c a i [] outputs = outputs"
| "view_outputs c a i (out # outs) outputs =
     (if Type out \<noteq> OutputTypeScript then view_outputs c a (Suc i) outs outputs
      else view_outputs c a (Suc i) outs
             (outputs @ [\<lparr>Type = Type out, Amount = Amount out,
                          Keys = view_keys c a (Mask out) i (Keys out) [],
                          Mask = Mask out, Script = Script out, Withdrawal = None\<rparr>]))"

definition ViewGhostKey :: "('p, 's) primitives \<Rightarrow> Transaction \<Rightarrow> key \<Rightarrow> Output list" where
  "ViewGhostKey c tx a = view_outputs c a 0 (Outputs tx) []"

section \<open>The per-input signers\<close>

text \<open>\<open>keysFilter\<close> maps the string of each key of the UTXO to its position; a later
  duplicate overwrites an earlier one. \<open>conv\<close> is the conversion applied to the
  position: \<open>uint16(i)\<close> in \<open>SignUTXO\<close> and \<open>SignInput\<close>, none in
  \<open>AggregateSign\<close>.\<close>

fun keysFilter ::
  "('p, 's) primitives \<Rightarrow> (nat \<Rightarrow> 'v) \<Rightarrow> nat \<Rightarrow> key list \<Rightarrow> (string \<rightharpoonup> 'v) \<Rightarrow> (string \<rightharpoonup> 'v)" where
  "keysFilter c conv i [] m = m"
| "keysFilter c conv i (k # ks) m = keysFilter c conv (Suc i) ks (m(KeyString c k \<mapsto> conv i))"

definition uint16 :: "nat \<Rightarrow> 16 word" where
  "uint16 n = word_of_nat n"

text \<open>The loop over the accounts shared, word for word, by \<open>SignUTXO\<close> and
  \<open>SignInput\<close>; \<open>nonce\<close> is \<open>utxo.Index\<close> in the first and \<open>in.Index\<close> in the
  second.\<close>

fun sign_accounts ::
  "('p, 's) primitives \<Rightarrow> key \<Rightarrow> nat \<Rightarrow> (string \<rightharpoonup> 16 word) \<Rightarrow> hash \<Rightarrow> Address list \<Rightarrow>
   (16 word \<rightharpoonup> signature) \<Rightarrow> error + (16 word \<rightharpoonup> signature)" where
  "sign_accounts c msk nonce kf msg [] sigs = Inr sigs"
| "sign_accounts c msk nonce kf msg (acc # accs) sigs =
     (let priv = DeriveGhostPrivateKey c msk (PrivateViewKey acc) (PrivateSpendKey acc) nonce
      in case kf (KeyString c (Public c priv)) of
           None \<Rightarrow> Inl (InvalidKey acc)
         | Some i \<Rightarrow> sign_accounts c msk nonce kf msg accs (sigs(i \<mapsto> Sign c priv msg)))"

definition SignUTXO ::
  "('p, 's) primitives \<Rightarrow> SignedTransaction \<Rightarrow> UTXO \<Rightarrow> Address list \<Rightarrow>
   error option \<times> SignedTransaction" where
  "SignUTXO c stx utxo accounts =
     (let msg = PayloadHash c stx
      in if accounts = [] then (None, stx)
         else case sign_accounts c (utxoMask utxo) (utxoIndex utxo)
                     (keysFilter c uint16 0 (utxoKeys utxo) Map.empty) msg accounts Map.empty of
                Inl err \<Rightarrow> (Some err, stx)
              | Inr sigs \<Rightarrow> (None, stx\<lparr>SignaturesMap := SignaturesMap stx @ [sigs]\<rparr>))"

definition SignRaw ::
  "('p, 's) primitives \<Rightarrow> SignedTransaction \<Rightarrow> key \<Rightarrow> error option \<times> SignedTransaction" where
  "SignRaw c stx k =
     (let msg = PayloadHash c stx
      in if length (Inputs (Transaction stx)) \<noteq> 1
         then (Some (InvalidInputsCount (length (Inputs (Transaction stx)))), stx)
         else let inp = Inputs (Transaction stx) ! 0
              in if Deposit inp = None \<and> Mint inp = None then (Some InvalidInputFormat, stx)
                 else let sig = Sign c k msg;
                          sigs = [0 \<mapsto> sig]
                      in (None, stx\<lparr>SignaturesMap := SignaturesMap stx @ [sigs]\<rparr>))"

text \<open>\<open>SignInput\<close> takes the index as a Go \<open>int\<close> and only compares it with the
  number of inputs from above: at a negative index the slice access
  \<open>signed.Inputs[index]\<close> panics.\<close>

definition SignInput ::
  "('p, 's) primitives \<Rightarrow> SignedTransaction \<Rightarrow> UTXOKeysReader \<Rightarrow> int \<Rightarrow> Address list \<Rightarrow>
   (error option \<times> SignedTransaction) outcome" where
  "SignInput c stx reader index accounts =
     (let inputs = Inputs (Transaction stx)
      in if accounts = [] then Returns (None, stx)
         else if index \<ge> int (length inputs)
         then Returns (Some (InvalidInputIndex index (length inputs)), stx)
         else if index < 0 then Panics (IndexOutOfRange index (length inputs))
         else let inp = inputs ! nat index
              in if Deposit inp \<noteq> None \<or> Mint inp \<noteq> None
                 then Returns (SignRaw c stx (PrivateSpendKey (accounts ! 0)))
                 else case reader (Hash inp) (Index inp) of
                        Inl err \<Rightarrow> Returns (Some err, stx)
                      | Inr None \<Rightarrow> Returns (Some (InputNotFound (Hash inp) (Index inp)), stx)
                      | Inr (Some utxo) \<Rightarrow>
                          (case sign_accounts c (utxoMask utxo) (Index inp)
                                  (keysFilter c uint16 0 (utxoKeys utxo) Map.empty)
                                  (PayloadHash c stx) accounts Map.empty of
                             Inl err \<Rightarrow> Returns (Some err, stx)
                           | Inr sigs \<Rightarrow>
                               Returns (None, stx\<lparr>SignaturesMap := SignaturesMap stx @ [sigs]\<rparr>)))"

section \<open>AggregateSign\<close>

text \<open>The loop over \<open>accounts[index]\<close>: \<open>n\<close> is \<open>len(pubKeys)\<close>, constant during
  the loop; the state is \<open>(signers, privKeys)\<close>.\<close>

fun aggregate_accounts ::
  "('p, 's) primitives \<Rightarrow> key \<Rightarrow> nat \<Rightarrow> (string \<rightharpoonup> nat) \<Rightarrow> nat \<Rightarrow> Address list \<Rightarrow>
   nat list \<times> key list \<Rightarrow> error + nat list \<times> key list" where
  "aggregate_accounts c msk nonce kf n [] (signers, privKeys) = Inr (signers, privKeys)"
| "aggregate_accounts c msk nonce kf n (acc # accs) (signers, privKeys) =
     (let priv = DeriveGhostPrivateKey c msk (PrivateViewKey acc) (PrivateSpendKey acc) nonce
      in case kf (KeyString c (Public c priv)) of
           None \<Rightarrow> Inl (InvalidKey acc)
         | Some i \<Rightarrow>
             (let m = n + i
              in if signers \<noteq> [] \<and> m \<le> last signers
                 then Inl (InvalidSignersOrder (last signers) m)
                 else aggregate_accounts c msk nonce kf n accs
                        (signers @ [m], privKeys @ [priv])))"

text \<open>The loop over \<open>signed.Inputs\<close> with its index; the state is
  \<open>(signers, privKeys, pubKeys)\<close>. \<open>accounts[index]\<close> is read after the reader has
  answered, with no check of \<open>len(accounts)\<close>.\<close>

fun aggregate_inputs ::
  "('p, 's) primitives \<Rightarrow> UTXOKeysReader \<Rightarrow> Address list list \<Rightarrow> nat \<Rightarrow> Input list \<Rightarrow>
   nat list \<times> key list \<times> key list \<Rightarrow> fault + nat list \<times> key list \<times> key list" where
  "aggregate_inputs c reader accounts index [] st = Inr st"
| "aggregate_inputs c reader accounts index (inp # ins) (signers, privKeys, pubKeys) =
     (case reader (Hash inp) (Index inp) of
        Inl err \<Rightarrow> Inl (Returned err)
      | Inr None \<Rightarrow> Inl (Returned (InputNotFound (Hash inp) (Index inp)))
      | Inr (Some utxo) \<Rightarrow>
          if length accounts \<le> index
          then Inl (Panicked (IndexOutOfRange (int index) (length accounts)))
          else (case aggregate_accounts c (utxoMask utxo) (Index inp)
                       (keysFilter c id 0 (utxoKeys utxo) Map.empty)
                       (length pubKeys) (accounts ! index) (signers, privKeys) of
                  Inl err \<Rightarrow> Inl (Returned err)
                | Inr (signers', privKeys') \<Rightarrow>
                    aggregate_inputs c reader accounts (Suc index) ins
                      (signers', privKeys', pubKeys @ utxoKeys utxo)))"

text \<open>\<open>binary.BigEndian.AppendUint16\<close>: the high byte, then the low byte.\<close>

definition AppendUint16 :: "bytes \<Rightarrow> 16 word \<Rightarrow> bytes" where
  "AppendUint16 b v = b @ [ucast (drop_bit 8 v), ucast v]"

text \<open>The loop over \<open>signers\<close> that derives the nonces; the state is
  \<open>(randoms, P, A)\<close>.\<close>

fun aggregate_nonces ::
  "('p, 's) primitives \<Rightarrow> bytes \<Rightarrow> key list \<Rightarrow> nat list \<Rightarrow>
   key list \<times> 'p \<times> 'p \<Rightarrow> fault + key list \<times> 'p \<times> 'p" where
  "aggregate_nonces c seed pubKeys [] st = Inr st"
| "aggregate_nonces c seed pubKeys (m # ms) (randoms, P, A) =
     (let buf = AppendUint16 seed (uint16 m);
          s = Blake3Hash c buf;
          r = NewKeyFromSeed c (s @ s);
          R = Public c r
      in case PointSetBytes c R of
           None \<Rightarrow> Inl (Returned InvalidPoint)
         | Some p \<Rightarrow>
             if length pubKeys \<le> m
             then Inl (Panicked (IndexOutOfRange (int m) (length pubKeys)))
             else (case PointSetBytes c (pubKeys ! m) of
                     None \<Rightarrow> Inl (Returned InvalidPoint)
                   | Some a \<Rightarrow>
                       aggregate_nonces c seed pubKeys ms
                         (randoms @ [r], PointAdd c P p, PointAdd c A a)))"

text \<open>The loop over \<open>privKeys\<close> with its index \<open>i\<close>, accumulating \<open>S\<close>; a key
  that does not decode panics with its string.\<close>

fun aggregate_scalars ::
  "('p, 's) primitives \<Rightarrow> 's \<Rightarrow> key list \<Rightarrow> nat \<Rightarrow> key list \<Rightarrow> 's \<Rightarrow> fault + 's" where
  "aggregate_scalars c x randoms i [] S = Inr S"
| "aggregate_scalars c x randoms i (k # ks) S =
     (case ScalarSetCanonicalBytes c k of
        None \<Rightarrow> Inl (Panicked (PanicString (KeyString c k)))
      | Some y \<Rightarrow>
          if length randoms \<le> i
          then Inl (Panicked (IndexOutOfRange (int i) (length randoms)))
          else (case ScalarSetCanonicalBytes c (randoms ! i) of
                  None \<Rightarrow> Inl (Panicked (PanicString (KeyString c (randoms ! i))))
                | Some z \<Rightarrow>
                    aggregate_scalars c x randoms (Suc i) ks
                      (ScalarAdd c S (ScalarMultiplyAdd c x y z))))"

text \<open>Go's \<open>copy(dst, src)\<close>: the contents of \<open>dst\<close> afterwards.\<close>

definition copy_bytes :: "bytes \<Rightarrow> bytes \<Rightarrow> bytes" where
  "copy_bytes dst src = take (length dst) src @ drop (length src) dst"

text \<open>The body of \<open>AggregateSign\<close> up to the assignment of
  \<open>signed.AggregatedSignature\<close>.\<close>

definition aggregate ::
  "('p, 's) primitives \<Rightarrow> SignedTransaction \<Rightarrow> UTXOKeysReader \<Rightarrow> Address list list \<Rightarrow> bytes \<Rightarrow>
   fault + AggregatedSignature" where
  "aggregate c stx reader accounts seed =
     (case aggregate_inputs c reader accounts 0 (Inputs (Transaction stx)) ([], [], []) of
        Inl f \<Rightarrow> Inl f
      | Inr (signers, privKeys, pubKeys) \<Rightarrow>
          (case aggregate_nonces c seed pubKeys signers ([], PointIdentity c, PointIdentity c) of
             Inl f \<Rightarrow> Inl f
           | Inr (randoms, P, A) \<Rightarrow>
               (let msg = PayloadHash c stx;
                    hramDigest = Sha512 c (PointBytes c P @ PointBytes c A @ msg)
                in case ScalarSetUniformBytes c hramDigest of
                     None \<Rightarrow> Inl (Returned InvalidScalar)
                   | Some x \<Rightarrow>
                       (case aggregate_scalars c x randoms 0 privKeys (ScalarZero c) of
                          Inl f \<Rightarrow> Inl f
                        | Inr S \<Rightarrow>
                            Inr \<lparr>Signers = signers,
                                 Signature = copy_bytes (replicate 32 0) (PointBytes c P) @
                                             copy_bytes (replicate 32 0) (ScalarBytes c S)\<rparr>))))"

definition AggregateSign ::
  "('p, 's) primitives \<Rightarrow> SignedTransaction \<Rightarrow> UTXOKeysReader \<Rightarrow> Address list list \<Rightarrow> bytes \<Rightarrow>
   (error option \<times> SignedTransaction) outcome" where
  "AggregateSign c stx reader accounts seed =
     (case aggregate c stx reader accounts seed of
        Inl (Returned err) \<Rightarrow> Returns (Some err, stx)
      | Inl (Panicked p) \<Rightarrow> Panics p
      | Inr agg \<Rightarrow> Returns (None, stx\<lparr>AggregatedSignature := Some agg\<rparr>))"

section \<open>Constructors\<close>

definition NewTransactionV5 :: "hash \<Rightarrow> Transaction" where
  "NewTransactionV5 asset =
     \<lparr>Version = TxVersionHashSignature, Asset = asset, Inputs = [], Outputs = [],
      References = [], Extra = []\<rparr>"

definition AddInput :: "Transaction \<Rightarrow> hash \<Rightarrow> nat \<Rightarrow> Transaction" where
  "AddInput tx h index =
     tx\<lparr>Inputs := Inputs tx @
          [\<lparr>Hash = h, Index = index, Genesis = None, Deposit = None, Mint = None\<rparr>]\<rparr>"

text \<open>The zero value of \<open>crypto.Key\<close>, a 32-byte array.\<close>

definition zero_key :: key where
  "zero_key = replicate 32 0"

definition AddOutputWithType ::
  "('p, 's) primitives \<Rightarrow> Transaction \<Rightarrow> byte \<Rightarrow> Address list \<Rightarrow> Script \<Rightarrow> Integer \<Rightarrow> bytes \<Rightarrow>
   Transaction" where
  "AddOutputWithType c tx ot accounts s amount seed =
     (let out = \<lparr>Type = ot, Amount = amount, Keys = [], Mask = zero_key, Script = s,
                 Withdrawal = None\<rparr>;
          out' = (if accounts \<noteq> []
                  then let r = NewKeyFromSeed c seed
                       in out\<lparr>Mask := Public c r,
                              Keys := map (\<lambda>a. DeriveGhostPublicKey c r (PublicViewKey a)
                                                 (PublicSpendKey a) (length (Outputs tx)))
                                        accounts\<rparr>
                  else out)
      in tx\<lparr>Outputs := Outputs tx @ [out']\<rparr>)"

definition AddScriptOutput ::
  "('p, 's) primitives \<Rightarrow> Transaction \<Rightarrow> Address list \<Rightarrow> Script \<Rightarrow> Integer \<Rightarrow> bytes \<Rightarrow>
   Transaction" where
  "AddScriptOutput c tx accounts s amount seed =
     AddOutputWithType c tx OutputTypeScript accounts s amount seed"

section \<open>Sequences of calls\<close>

text \<open>A transaction is built by a sequence of \<open>AddInput\<close> and \<open>AddOutputWithType\<close>
  calls on \<open>NewTransactionV5(asset)\<close>, and stx by a sequence of calls of the four
  signers. A call that returns an error leaves the caller free to go on; a panic ends
  the sequence.\<close>

datatype build_op =
    OpAddInput hash nat
  | OpAddOutputWithType byte "Address list" Script Integer bytes

fun apply_build :: "('p, 's) primitives \<Rightarrow> Transaction \<Rightarrow> build_op \<Rightarrow> Transaction" where
  "apply_build c tx (OpAddInput h index) = AddInput tx h index"
| "apply_build c tx (OpAddOutputWithType ot accounts s amount seed) =
     AddOutputWithType c tx ot accounts s amount seed"

definition build :: "('p, 's) primitives \<Rightarrow> hash \<Rightarrow> build_op list \<Rightarrow> Transaction" where
  "build c asset ops = foldl (apply_build c) (NewTransactionV5 asset) ops"

datatype sign_op =
    OpSignUTXO UTXO "Address list"
  | OpSignInput UTXOKeysReader int "Address list"
  | OpSignRaw key
  | OpAggregateSign UTXOKeysReader "Address list list" bytes

fun is_aggregate :: "sign_op \<Rightarrow> bool" where
  "is_aggregate (OpAggregateSign reader accounts seed) = True"
| "is_aggregate _ = False"

fun apply_sign ::
  "('p, 's) primitives \<Rightarrow> SignedTransaction \<Rightarrow> sign_op \<Rightarrow> SignedTransaction outcome" where
  "apply_sign c stx (OpSignUTXO utxo accounts) =
     Returns (snd (SignUTXO c stx utxo accounts))"
| "apply_sign c stx (OpSignInput reader index accounts) =
     (case SignInput c stx reader index accounts of
        Returns r \<Rightarrow> Returns (snd r)
      | Panics p \<Rightarrow> Panics p)"
| "apply_sign c stx (OpSignRaw k) = Returns (snd (SignRaw c stx k))"
| "apply_sign c stx (OpAggregateSign reader accounts seed) =
     (case AggregateSign c stx reader accounts seed of
        Returns r \<Rightarrow> Returns (snd r)
      | Panics p \<Rightarrow> Panics p)"

fun run_signers ::
  "('p, 's) primitives \<Rightarrow> SignedTransaction \<Rightarrow> sign_op list \<Rightarrow> SignedTransaction outcome" where
  "run_signers c stx [] = Returns stx"
| "run_signers c stx (op # ops) =
     (case apply_sign c stx op of
        Returns stx' \<Rightarrow> run_signers c stx' ops
      | Panics p \<Rightarrow> Panics p)"

section \<open>The classification by outputs, as the specification words it\<close>

text \<open>The eight special output types and the transaction type each one stands for.\<close>

definition special_output :: "byte \<Rightarrow> byte option" where
  "special_output t =
     (if t = 0xa1 then Some 0x03
      else if t = 0xa9 then Some 0x05
      else if t = 0xa3 then Some 0x06
      else if t = 0xaa then Some 0x12
      else if t = 0xa4 then Some 0x07
      else if t = 0xa6 then Some 0x09
      else if t = 0xb1 then Some 0x13
      else if t = 0xb2 then Some 0x14
      else None)"

text \<open>The first special output decides; with no special output the type is Script
  (\<open>0x00\<close>) when every output is a Script output, and Unknown (\<open>0xff\<close>) otherwise.\<close>

definition classify_by_outputs :: "Output list \<Rightarrow> byte" where
  "classify_by_outputs outs =
     (case List.map_filter (\<lambda>out. special_output (Type out)) outs of
        t # _ \<Rightarrow> t
      | [] \<Rightarrow> if list_all (\<lambda>out. Type out = 0x00) outs then 0x00 else 0xff)"

text \<open>What \<open>ViewGhostKey\<close> makes of the output at position \<open>i\<close>.\<close>

definition viewed_output :: "('p, 's) primitives \<Rightarrow> key \<Rightarrow> nat \<times> Output \<Rightarrow> Output" where
  "viewed_output c a p =
     \<lparr>Type = Type (snd p), Amount = Amount (snd p),
      Keys = map (\<lambda>k. ViewGhostOutputKey c k a (Mask (snd p)) (fst p)) (Keys (snd p)),
      Mask = Mask (snd p), Script = Script (snd p), Withdrawal = None\<rparr>"

section \<open>A small instance of the external primitives\<close>

text \<open>The theorems below hold for every choice of the primitives. To run the signers
  on concrete transactions, the primitives are instantiated with a small arithmetic
  stand-in: points and scalars are integers, the public key of a private key adds one
  to each byte, the ghost private key is the private spend key, a signature is the
  key followed by the message, and \<open>String\<close> is the hexadecimal encoding.\<close>

definition hex_digit :: "nat \<Rightarrow> char" where
  "hex_digit n = ''0123456789abcdef'' ! n"

definition hex_string :: "bytes \<Rightarrow> string" where
  "hex_string b = concat (map (\<lambda>x. [hex_digit (unat x div 16), hex_digit (unat x mod 16)]) b)"

definition test_primitives :: "(int, int) primitives" where
  "test_primitives =
     \<lparr>PayloadHash = (\<lambda>stx. Version (Transaction stx) # Asset (Transaction stx)),
      ViewGhostOutputKey = (\<lambda>k a msk i. k @ a @ msk @ [word_of_nat i]),
      DeriveGhostPrivateKey = (\<lambda>msk view spend i. spend),
      DeriveGhostPublicKey = (\<lambda>r view spend i. spend),
      Public = map (\<lambda>b. b + 1),
      KeyString = hex_string,
      Sign = (\<lambda>k msg. k @ msg),
      NewKeyFromSeed = take 32,
      Blake3Hash = (\<lambda>b. replicate 32 (sum_list b)),
      Sha512 = (\<lambda>b. replicate 64 (sum_list b)),
      PointIdentity = 0,
      PointSetBytes = (\<lambda>b. Some (sum_list (map uint b))),
      PointAdd = (+),
      PointBytes = (\<lambda>p. [word_of_int p]),
      ScalarZero = 0,
      ScalarSetUniformBytes =
        (\<lambda>b. if length b = 64 then Some (sum_list (map uint b)) else None),
      ScalarSetCanonicalBytes = (\<lambda>b. Some (sum_list (map uint b))),
      ScalarMultiplyAdd = (\<lambda>x y z. x * y + z),
      ScalarAdd = (+),
      ScalarBytes = (\<lambda>s. [word_of_int s])\<rparr>"

text \<open>The account whose private spend key is the single byte \<open>b\<close>.\<close>

definition test_account :: "byte \<Rightarrow> Address" where
  "test_account b =
     \<lparr>PublicSpendKey = [b + 1], PublicViewKey = [b + 0x81],
      PrivateSpendKey = [b], PrivateViewKey = [b + 0x80]\<rparr>"

text \<open>A UTXO holding the ghost keys of the accounts 1 and 2, in this order, and a reader
  that knows it as output 0 of the transaction with hash \<open>[7]\<close>.\<close>

definition test_utxo :: UTXO where
  "test_utxo = \<lparr>utxoKeys = [[2], [3]], utxoMask = [9], utxoIndex = 0\<rparr>"

definition test_reader :: UTXOKeysReader where
  "test_reader h i = (if h = [7] \<and> i = 0 then Inr (Some test_utxo) else Inr None)"

text \<open>A transaction built by the constructors, with the one input the reader knows and
  one Script output for account 1, and its promotion to a signed transaction.\<close>

definition test_transaction :: Transaction where
  "test_transaction =
     build test_primitives [1] [OpAddInput [7] 0, OpAddOutputWithType 0x00 [test_account 1] [] 10 [4]]"

definition test_signed :: SignedTransaction where
  "test_signed = \<lparr>Transaction = test_transaction, AggregatedSignature = None, SignaturesMap = []\<rparr>"

text \<open>Inputs of the three special kinds, and an ordinary one.\<close>

definition plain_input :: Input where
  "plain_input = \<lparr>Hash = [7], Index = 0, Genesis = None, Deposit = None, Mint = None\<rparr>"

definition mint_input :: Input where
  "mint_input = \<lparr>Hash = [], Index = 0, Genesis = None, Deposit = None, Mint = Some (MintData [1])\<rparr>"

definition deposit_input :: Input where
  "deposit_input =
     \<lparr>Hash = [], Index = 0, Genesis = None, Deposit = Some (DepositData [1]), Mint = None\<rparr>"

definition genesis_input :: Input where
  "genesis_input = \<lparr>Hash = [], Index = 0, Genesis = Some [1], Deposit = None, Mint = None\<rparr>"

definition test_output :: "byte \<Rightarrow> Output" where
  "test_output t =
     \<lparr>Type = t, Amount = 1, Keys = [[2]], Mask = [9], Script = [], Withdrawal = None\<rparr>"

definition with_inputs :: "Input list \<Rightarrow> Output list \<Rightarrow> SignedTransaction" where
  "with_inputs ins outs =
     \<lparr>Transaction = \<lparr>Version = TxVersionHashSignature, Asset = [1], Inputs = ins,
                      Outputs = outs, References = [], Extra = []\<rparr>,
      AggregatedSignature = None, SignaturesMap = []\<rparr>"

text \<open>The aggregated signature of \<open>test_signed\<close> by the accounts 1 and 2 with the
  seed \<open>[5]\<close>, under the instance above.\<close>

definition test_aggregated :: AggregatedSignature where
  "test_aggregated =
     \<lparr>Signers = [0, 1], Signature = 160 # replicate 31 0 @ 160 # replicate 31 0\<rparr>"

text \<open>An ordinary input the reader does not know.\<close>

definition unknown_input :: Input where
  "unknown_input = \<lparr>Hash = [8], Index = 0, Genesis = None, Deposit = None, Mint = None\<rparr>"

section \<open>Predicates of the statements\<close>

text \<open>\<open>appends_one stx stx'\<close>: the state \<open>stx'\<close> is \<open>stx\<close> with exactly one map
  appended to \<open>SignaturesMap\<close>, and nothing else changed.\<close>

definition appends_one :: "SignedTransaction \<Rightarrow> SignedTransaction \<Rightarrow> bool" where
  "appends_one stx stx' \<longleftrightarrow>
     stx' = stx\<lparr>SignaturesMap := SignaturesMap stx @ [last (SignaturesMap stx')]\<rparr>"

text \<open>The invariant of the scan of \<open>AggregateSign\<close> over a state
  \<open>(signers, privKeys)\<close>: the signers are strictly ascending, there is one private key
  per signer, and every signer is below \<open>bound\<close>, the number of public keys gathered
  when the current input is done.\<close>

definition scan_inv :: "nat \<Rightarrow> nat list \<times> key list \<Rightarrow> bool" where
  "scan_inv bound st \<longleftrightarrow>
     sorted_wrt (<) (fst st) \<and> length (snd st) = length (fst st) \<and> (\<forall>m\<in>set (fst st). m < bound)"

definition inputs_inv :: "nat list \<times> key list \<times> key list \<Rightarrow> bool" where
  "inputs_inv st \<longleftrightarrow> scan_inv (length (snd (snd st))) (fst st, fst (snd st))"

section \<open>Facts about the constants\<close>

lemmas output_type_defs =
  OutputTypeScript_def OutputTypeWithdrawalSubmit_def OutputTypeNodePledge_def
  OutputTypeNodeAccept_def outputTypeNodeResign_def OutputTypeNodeRemove_def
  OutputTypeWithdrawalClaim_def OutputTypeNodeCancel_def
  OutputTypeCustodianUpdateNodes_def OutputTypeCustodianSlashNodes_def

lemmas transaction_type_defs =
  TransactionTypeScript_def TransactionTypeMint_def TransactionTypeDeposit_def
  TransactionTypeWithdrawalSubmit_def TransactionTypeWithdrawalClaim_def
  TransactionTypeNodePledge_def TransactionTypeNodeAccept_def transactionTypeNodeResign_def
  TransactionTypeNodeRemove_def TransactionTypeNodeCancel_def
  TransactionTypeCustodianUpdateNodes_def TransactionTypeCustodianSlashNodes_def
  TransactionTypeUnknown_def

lemmas fixture_defs =
  test_signed_def test_transaction_def build_def NewTransactionV5_def AddInput_def
  AddOutputWithType_def test_account_def test_utxo_def test_reader_def test_primitives_def
  with_inputs_def plain_input_def mint_input_def deposit_input_def genesis_input_def
  test_output_def hex_string_def hex_digit_def uint16_def AppendUint16_def copy_bytes_def
  TxVersionHashSignature_def zero_key_def

text \<open>Runs of the signers on the test transaction.\<close>

lemma test_signed_inputs: "Inputs (Transaction test_signed) = [plain_input]"
  by (simp add: fixture_defs)

lemma test_signed_built:
  "test_signed =
     \<lparr>Transaction = build test_primitives [1]
        [OpAddInput [7] 0, OpAddOutputWithType 0x00 [test_account 1] [] 10 [4]],
      AggregatedSignature = None, SignaturesMap = []\<rparr>"
  by (simp add: test_signed_def test_transaction_def)

lemma test_aggregate:
  "aggregate test_primitives test_signed test_reader [[test_account 1, test_account 2]] [5]
     = Inr test_aggregated"
  by code_simp

lemma test_aggregate_again:
  "aggregate test_primitives (test_signed\<lparr>AggregatedSignature := Some test_aggregated\<rparr>)
     test_reader [[test_account 1, test_account 2]] [5] = Inr test_aggregated"
  by code_simp

lemma test_aggregate_after_signing:
  "aggregate test_primitives (test_signed\<lparr>SignaturesMap := [[0 \<mapsto> [1, 5, 1]]]\<rparr>)
     test_reader [[test_account 1, test_account 2]] [5] = Inr test_aggregated"
  by code_simp

section \<open>Properties of the classifier\<close>

lemma type_of_inputs_plain_prefix:
  "\<forall>p\<in>set pre. Mint p = None \<and> Deposit p = None \<and> Genesis p = None \<Longrightarrow>
   type_of_inputs (pre @ rest) = type_of_inputs rest"
  by (induction pre) simp_all

lemma type_of_inputs_all_plain:
  "\<forall>p\<in>set ins. Mint p = None \<and> Deposit p = None \<and> Genesis p = None \<Longrightarrow>
   type_of_inputs ins = None"
  by (induction ins) simp_all

lemma type_of_inputs_not_resign: "type_of_inputs ins = Some t \<Longrightarrow> t \<noteq> 0x08"
  by (induction ins) (auto simp: transaction_type_defs split: if_splits)

text \<open>One step of the loop over the outputs, through the table of special types.\<close>

lemma type_of_outputs_step:
  "type_of_outputs (out # outs) b =
     (case special_output (Type out) of
        Some t \<Rightarrow> t
      | None \<Rightarrow> type_of_outputs outs (b \<and> Type out = 0x00))"
  by (simp add: special_output_def output_type_defs transaction_type_defs)

lemma type_of_outputs_classify:
  "type_of_outputs outs b =
     (case List.map_filter (\<lambda>out. special_output (Type out)) outs of
        t # _ \<Rightarrow> t
      | [] \<Rightarrow> if b \<and> list_all (\<lambda>out. Type out = 0x00) outs then 0x00 else 0xff)"
proof (induction outs arbitrary: b)
  case Nil
  show ?case by (simp add: transaction_type_defs)
next
  case (Cons out outs)
  show ?case
    unfolding type_of_outputs_step Cons.IH
    by (simp split: option.split list.split)
qed

lemma type_of_outputs_not_resign: "type_of_outputs outs b \<noteq> 0x08"
  by (induction outs arbitrary: b) (simp_all add: transaction_type_defs)

lemma TransactionType_never_resign: "TransactionType tx \<noteq> transactionTypeNodeResign"
  by (auto simp: TransactionType_def transactionTypeNodeResign_def type_of_outputs_not_resign
        dest: type_of_inputs_not_resign split: option.splits)

text \<open>
  Claim C1, as the code has it. The loop over the inputs returns at the first input
  that carries any of \<open>Mint\<close>, \<open>Deposit\<close> or \<open>Genesis\<close>, and tests the three
  fields of that input in this order. So the first such input alone decides: the type
  is Mint if it carries \<open>Mint\<close>, Deposit if it carries \<open>Deposit\<close> and no
  \<open>Mint\<close>, and Unknown if it carries only \<open>Genesis\<close>, whatever the later
  inputs (a Mint or Deposit input among them included) and the outputs are.
\<close>

theorem TransactionType_first_special_input:
  assumes "Inputs (Transaction tx) = pre @ inp # post"
    and "\<forall>p\<in>set pre. Mint p = None \<and> Deposit p = None \<and> Genesis p = None"
    and "Mint inp \<noteq> None \<or> Deposit inp \<noteq> None \<or> Genesis inp \<noteq> None"
  shows "TransactionType tx =
           (if Mint inp \<noteq> None then TransactionTypeMint
            else if Deposit inp \<noteq> None then TransactionTypeDeposit
            else TransactionTypeUnknown)"
proof -
  have "type_of_inputs (Inputs (Transaction tx)) = type_of_inputs (inp # post)"
    using assms(1,2) by (simp add: type_of_inputs_plain_prefix)
  with assms(3) show ?thesis
    by (auto simp: TransactionType_def)
qed

theorem TransactionType_first_special_input_witness:
  "TransactionType (with_inputs [plain_input, mint_input, deposit_input] [test_output 0xa1])
     = TransactionTypeMint \<and>
   TransactionType (with_inputs [plain_input, deposit_input, genesis_input] [test_output 0xa1])
     = TransactionTypeDeposit \<and>
   TransactionType (with_inputs [plain_input, deposit_input, mint_input] [test_output 0xa1])
     = TransactionTypeDeposit \<and>
   TransactionType (with_inputs [plain_input, genesis_input, mint_input] [test_output 0xa1])
     = TransactionTypeUnknown \<and>
   TransactionType (with_inputs [genesis_input, deposit_input] [test_output 0x00])
     = TransactionTypeUnknown"
  using TransactionType_first_special_input
          [of "with_inputs [plain_input, mint_input, deposit_input] [test_output 0xa1]"
              "[plain_input]" mint_input "[deposit_input]"]
        TransactionType_first_special_input
          [of "with_inputs [plain_input, deposit_input, genesis_input] [test_output 0xa1]"
              "[plain_input]" deposit_input "[genesis_input]"]
        TransactionType_first_special_input
          [of "with_inputs [plain_input, deposit_input, mint_input] [test_output 0xa1]"
              "[plain_input]" deposit_input "[mint_input]"]
        TransactionType_first_special_input
          [of "with_inputs [plain_input, genesis_input, mint_input] [test_output 0xa1]"
              "[plain_input]" genesis_input "[mint_input]"]
        TransactionType_first_special_input
          [of "with_inputs [genesis_input, deposit_input] [test_output 0x00]"
              "[]" genesis_input "[deposit_input]"]
  by (simp add: with_inputs_def plain_input_def mint_input_def deposit_input_def
        genesis_input_def)

text \<open>
  Claim C1 as it is written fails: with a Deposit input before a Mint input the type
  is Deposit (\<open>0x02\<close>), not Mint, although an input carries \<open>Mint\<close>; and with a
  Genesis input before a Deposit input the type is Unknown (\<open>0xff\<close>), not Deposit,
  although no input carries \<open>Mint\<close> and one carries \<open>Deposit\<close>.
\<close>

theorem TransactionType_deposit_before_mint:
  "Mint (Inputs (Transaction (with_inputs [deposit_input, mint_input] [])) ! 1) \<noteq> None \<and>
   TransactionType (with_inputs [deposit_input, mint_input] []) = TransactionTypeDeposit \<and>
   TransactionType (with_inputs [deposit_input, mint_input] []) \<noteq> TransactionTypeMint \<and>
   Mint (Inputs (Transaction (with_inputs [genesis_input, deposit_input] [])) ! 0) = None \<and>
   Mint (Inputs (Transaction (with_inputs [genesis_input, deposit_input] [])) ! 1) = None \<and>
   Deposit (Inputs (Transaction (with_inputs [genesis_input, deposit_input] [])) ! 1) \<noteq> None \<and>
   TransactionType (with_inputs [genesis_input, deposit_input] []) = TransactionTypeUnknown \<and>
   TransactionType (with_inputs [genesis_input, deposit_input] []) \<noteq> TransactionTypeDeposit"
  by (simp add: TransactionType_def with_inputs_def mint_input_def deposit_input_def
        genesis_input_def transaction_type_defs)

text \<open>
  Claim C4. When no input carries \<open>Mint\<close>, \<open>Deposit\<close> or \<open>Genesis\<close>, the type is
  the one of the first output with a special type, by the table \<open>special_output\<close>; with
  no special output it is Script when every output (none included) is a Script output,
  and Unknown otherwise. The reserved tag \<open>0x08\<close> is never returned.
\<close>

theorem TransactionType_by_outputs:
  assumes "\<forall>p\<in>set (Inputs (Transaction tx)).
             Mint p = None \<and> Deposit p = None \<and> Genesis p = None"
  shows "TransactionType tx = classify_by_outputs (Outputs (Transaction tx)) \<and>
         TransactionType tx \<noteq> transactionTypeNodeResign"
proof
  have "type_of_inputs (Inputs (Transaction tx)) = None"
    using assms by (rule type_of_inputs_all_plain)
  then show "TransactionType tx = classify_by_outputs (Outputs (Transaction tx))"
    by (simp add: TransactionType_def type_of_outputs_classify classify_by_outputs_def)
  show "TransactionType tx \<noteq> transactionTypeNodeResign"
    by (rule TransactionType_never_resign)
qed

theorem TransactionType_by_outputs_witness:
  "TransactionType (with_inputs [plain_input] [test_output 0x00, test_output 0xa1, test_output 0xa9])
     = 0x03 \<and>
   TransactionType (with_inputs [plain_input] [test_output 0x00, test_output 0x00]) = 0x00 \<and>
   TransactionType (with_inputs [plain_input] []) = 0x00 \<and>
   TransactionType (with_inputs [plain_input] [test_output 0x00, test_output 0x77]) = 0xff \<and>
   TransactionType (with_inputs [plain_input] [test_output 0xa5]) = 0xff"
  using TransactionType_by_outputs
          [of "with_inputs [plain_input] [test_output 0x00, test_output 0xa1, test_output 0xa9]"]
        TransactionType_by_outputs
          [of "with_inputs [plain_input] [test_output 0x00, test_output 0x00]"]
        TransactionType_by_outputs [of "with_inputs [plain_input] []"]
        TransactionType_by_outputs
          [of "with_inputs [plain_input] [test_output 0x00, test_output 0x77]"]
        TransactionType_by_outputs [of "with_inputs [plain_input] [test_output 0xa5]"]
  by (simp add: with_inputs_def plain_input_def test_output_def classify_by_outputs_def
        special_output_def)

section \<open>Properties of the viewer\<close>

lemma view_keys_map:
  "view_keys c a m i ks ks' = ks' @ map (\<lambda>k. ViewGhostOutputKey c k a m i) ks"
  by (induction ks arbitrary: ks') simp_all

lemma view_outputs_map_filter:
  "view_outputs c a i outs outputs =
     outputs @ map (viewed_output c a)
                 (filter (\<lambda>p. Type (snd p) = OutputTypeScript) (enumerate i outs))"
  by (induction outs arbitrary: i outputs) (simp_all add: view_keys_map viewed_output_def)

text \<open>
  Claim C8. \<open>ViewGhostKey\<close> returns the Script outputs of the transaction, in their
  order, each turned into \<open>viewed_output\<close>: the same \<open>Type\<close>, \<open>Amount\<close>,
  \<open>Script\<close> and \<open>Mask\<close>, and every key \<open>k\<close> replaced by
  \<open>ViewGhostOutputKey k a Mask i\<close>, where \<open>i\<close> is the position of the output among
  all outputs of the transaction (\<open>enumerate 0\<close> pairs each output with it). Outputs
  of another type are left out. The function reads the transaction and writes nothing
  to it: its only result is the list.
\<close>

theorem ViewGhostKey_script_subsequence:
  "ViewGhostKey c tx a =
     map (viewed_output c a)
       (filter (\<lambda>p. Type (snd p) = OutputTypeScript) (enumerate 0 (Outputs tx)))"
  by (simp add: ViewGhostKey_def view_outputs_map_filter)

theorem ViewGhostKey_script_subsequence_witness:
  "ViewGhostKey test_primitives
     (Transaction (with_inputs [] [test_output 0x00, test_output 0xa1, test_output 0x00])) [6] =
     [(test_output 0x00)\<lparr>Keys := [[2, 6, 9, 0]]\<rparr>, (test_output 0x00)\<lparr>Keys := [[2, 6, 9, 2]]\<rparr>]"
  using ViewGhostKey_script_subsequence
          [of test_primitives
              "Transaction (with_inputs [] [test_output 0x00, test_output 0xa1, test_output 0x00])"
              "[6]"]
  by (simp add: with_inputs_def test_output_def test_primitives_def viewed_output_def
        enumerate_eq_zip OutputTypeScript_def upt_rec)

section \<open>Properties of the per-input signers\<close>

text \<open>
  Claim C5. \<open>SignRaw\<close> returns the error of a wrong input count whenever the number of
  inputs is not 1, the error of a wrong input format when the single input carries
  neither \<open>Deposit\<close> nor \<open>Mint\<close>, and otherwise succeeds and appends the one-entry
  map from 0 to the signature of the payload hash under the key; on an error the
  transaction is returned as it was.
\<close>

theorem SignRaw_cases:
  "(length (Inputs (Transaction stx)) \<noteq> 1 \<longrightarrow>
      SignRaw c stx k = (Some (InvalidInputsCount (length (Inputs (Transaction stx)))), stx)) \<and>
   (Inputs (Transaction stx) = [inp] \<and> Deposit inp = None \<and> Mint inp = None \<longrightarrow>
      SignRaw c stx k = (Some InvalidInputFormat, stx)) \<and>
   (Inputs (Transaction stx) = [inp] \<and> (Deposit inp \<noteq> None \<or> Mint inp \<noteq> None) \<longrightarrow>
      SignRaw c stx k =
        (None, stx\<lparr>SignaturesMap :=
                     SignaturesMap stx @ [[0 \<mapsto> Sign c k (PayloadHash c stx)]]\<rparr>))"
  by (auto simp: SignRaw_def Let_def)

theorem SignRaw_cases_witness:
  "SignRaw test_primitives (with_inputs [deposit_input, deposit_input] []) [3] =
     (Some (InvalidInputsCount 2), with_inputs [deposit_input, deposit_input] []) \<and>
   SignRaw test_primitives (with_inputs [plain_input] []) [3] =
     (Some InvalidInputFormat, with_inputs [plain_input] []) \<and>
   SignRaw test_primitives (with_inputs [mint_input] []) [3] =
     (None, (with_inputs [mint_input] [])\<lparr>SignaturesMap := [[0 \<mapsto> [3, 5, 1]]]\<rparr>)"
  using SignRaw_cases [of "with_inputs [deposit_input, deposit_input] []" test_primitives "[3]"]
        SignRaw_cases [of "with_inputs [plain_input] []" test_primitives "[3]" plain_input]
        SignRaw_cases [of "with_inputs [mint_input] []" test_primitives "[3]" mint_input]
  by (simp add: with_inputs_def plain_input_def mint_input_def test_primitives_def
        TxVersionHashSignature_def)

text \<open>
  Claim C6 fails on the code at every negative index: \<open>SignInput\<close> compares the index
  with the number of inputs from above only, so with a non-empty accounts list the
  index \<open>-1\<close> reaches \<open>signed.Inputs[index]\<close> and the call panics instead of
  returning the error of an invalid input index.
\<close>

theorem SignInput_negative_index_panics:
  "SignInput c stx reader (- 1) (acc # accs) =
     Panics (IndexOutOfRange (- 1) (length (Inputs (Transaction stx))))"
  by (simp add: SignInput_def)

theorem SignInput_negative_index_panics_witness:
  "SignInput test_primitives test_signed test_reader (- 1) [test_account 1] =
     Panics (IndexOutOfRange (- 1) 1)"
  using SignInput_negative_index_panics
          [of test_primitives test_signed test_reader "test_account 1" "[]"]
  by (simp add: fixture_defs)

text \<open>The part of the bounds check that is there: an index at or above the number of
  inputs gives the error and leaves the transaction as it was.\<close>

lemma SignInput_index_too_large:
  "accounts \<noteq> [] \<Longrightarrow> int (length (Inputs (Transaction stx))) \<le> index \<Longrightarrow>
   SignInput c stx reader index accounts =
     Returns (Some (InvalidInputIndex index (length (Inputs (Transaction stx)))), stx)"
  by (simp add: SignInput_def)

lemma SignRaw_append:
  "SignRaw c stx k = (err, stx') \<Longrightarrow>
   (if err = None then appends_one stx stx' else stx' = stx)"
  by (auto simp: SignRaw_def Let_def appends_one_def split: if_splits)

lemma SignUTXO_append:
  "SignUTXO c stx utxo accounts = (err, stx') \<Longrightarrow>
   (if accounts = [] then err = None \<and> stx' = stx
    else if err = None then appends_one stx stx' else stx' = stx)"
  by (auto simp: SignUTXO_def Let_def appends_one_def split: if_splits sum.splits)

lemma SignInput_append:
  "SignInput c stx reader index accounts = Returns (err, stx') \<Longrightarrow>
   (if accounts = [] then err = None \<and> stx' = stx
    else if err = None then appends_one stx stx' else stx' = stx)"
  using SignRaw_append [of c stx "PrivateSpendKey (accounts ! 0)" err stx']
  by (auto simp: SignInput_def Let_def appends_one_def split: if_splits sum.splits option.splits)

text \<open>
  Claim C7, as the code has it. Each of \<open>SignUTXO\<close>, \<open>SignInput\<close> and \<open>SignRaw\<close>
  leaves the transaction exactly as it was when it returns an error; when it returns
  success it has appended exactly one map to \<open>SignaturesMap\<close> and changed nothing
  else, except that \<open>SignUTXO\<close> and \<open>SignInput\<close> called with an empty accounts list
  return success and leave the transaction as it was. This holds from every starting
  state. (A call of \<open>SignInput\<close> that panics returns nothing.)
\<close>

theorem signers_append_one_or_nothing:
  "(case SignUTXO c stx utxo accounts of
      (err, stx') \<Rightarrow>
        (if accounts = [] then err = None \<and> stx' = stx
         else if err = None then appends_one stx stx' else stx' = stx)) \<and>
   (case SignInput c stx reader index accounts of
      Returns (err, stx') \<Rightarrow>
        (if accounts = [] then err = None \<and> stx' = stx
         else if err = None then appends_one stx stx' else stx' = stx)
    | Panics p \<Rightarrow> True) \<and>
   (case SignRaw c stx k of
      (err, stx') \<Rightarrow> (if err = None then appends_one stx stx' else stx' = stx))"
proof (intro conjI)
  show "case SignUTXO c stx utxo accounts of
      (err, stx') \<Rightarrow>
        (if accounts = [] then err = None \<and> stx' = stx
         else if err = None then appends_one stx stx' else stx' = stx)"
    using SignUTXO_append [of c stx utxo accounts] by (cases "SignUTXO c stx utxo accounts") simp
  show "case SignInput c stx reader index accounts of
      Returns (err, stx') \<Rightarrow>
        (if accounts = [] then err = None \<and> stx' = stx
         else if err = None then appends_one stx stx' else stx' = stx)
    | Panics p \<Rightarrow> True"
    using SignInput_append [of c stx reader index accounts]
    by (cases "SignInput c stx reader index accounts") (auto split: prod.splits)
  show "case SignRaw c stx k of
      (err, stx') \<Rightarrow> (if err = None then appends_one stx stx' else stx' = stx)"
    using SignRaw_append [of c stx k] by (cases "SignRaw c stx k") simp
qed

theorem signers_append_one_or_nothing_witness:
  "SignUTXO test_primitives test_signed test_utxo [test_account 1, test_account 2] =
     (None, test_signed\<lparr>SignaturesMap := [[0 \<mapsto> [1, 5, 1], 1 \<mapsto> [2, 5, 1]]]\<rparr>) \<and>
   appends_one test_signed
     (test_signed\<lparr>SignaturesMap := [[0 \<mapsto> [1, 5, 1], 1 \<mapsto> [2, 5, 1]]]\<rparr>) \<and>
   SignInput test_primitives test_signed test_reader 0 [test_account 1, test_account 2] =
     Returns (None, test_signed\<lparr>SignaturesMap := [[0 \<mapsto> [1, 5, 1], 1 \<mapsto> [2, 5, 1]]]\<rparr>) \<and>
   SignRaw test_primitives test_signed [3] = (Some InvalidInputFormat, test_signed)"
proof -
  have u: "SignUTXO test_primitives test_signed test_utxo [test_account 1, test_account 2] =
     (None, test_signed\<lparr>SignaturesMap := [[0 \<mapsto> [1, 5, 1], 1 \<mapsto> [2, 5, 1]]]\<rparr>)"
    by (simp add: SignUTXO_def Let_def fixture_defs)
  have i: "SignInput test_primitives test_signed test_reader 0 [test_account 1, test_account 2] =
     Returns (None, test_signed\<lparr>SignaturesMap := [[0 \<mapsto> [1, 5, 1], 1 \<mapsto> [2, 5, 1]]]\<rparr>)"
    by (simp add: SignInput_def Let_def fixture_defs)
  have r: "SignRaw test_primitives test_signed [3] = (Some InvalidInputFormat, test_signed)"
    by (simp add: SignRaw_def Let_def fixture_defs)
  from signers_append_one_or_nothing
         [where c = test_primitives and stx = test_signed and utxo = test_utxo
            and accounts = "[test_account 1, test_account 2]" and reader = test_reader
            and index = 0 and k = "[3]"]
  show ?thesis by (simp add: u i r)
qed

text \<open>
  Claim C7 as it is written fails where it includes the empty accounts list: there
  \<open>SignUTXO\<close> and \<open>SignInput\<close> return success and append no map.
\<close>

theorem SignUTXO_without_accounts:
  "fst (SignUTXO test_primitives test_signed test_utxo []) = None \<and>
   length (SignaturesMap (snd (SignUTXO test_primitives test_signed test_utxo []))) \<noteq>
     length (SignaturesMap test_signed) + 1 \<and>
   SignInput test_primitives test_signed test_reader 0 [] = Returns (None, test_signed)"
  by (simp add: SignUTXO_def SignInput_def)

section \<open>Properties of the aggregated signer\<close>

lemma keysFilter_range:
  "keysFilter c conv i ks m s = Some v \<Longrightarrow>
   m s = Some v \<or> (\<exists>j. i \<le> j \<and> j < i + length ks \<and> v = conv j)"
proof (induction ks arbitrary: i m)
  case Nil
  then show ?case by simp
next
  case (Cons k ks)
  have "keysFilter c conv (Suc i) ks (m(KeyString c k \<mapsto> conv i)) s = Some v"
    using Cons.prems by simp
  from Cons.IH [OF this] show ?case
  proof
    assume "(m(KeyString c k \<mapsto> conv i)) s = Some v"
    then have "m s = Some v \<or> v = conv i" by (simp split: if_splits)
    then show ?thesis
    proof
      assume "v = conv i"
      then have "i \<le> i \<and> i < i + length (k # ks) \<and> v = conv i" by simp
      then show ?thesis by blast
    qed simp
  next
    assume "\<exists>j. Suc i \<le> j \<and> j < Suc i + length ks \<and> v = conv j"
    then obtain j where "Suc i \<le> j" "j < Suc i + length ks" "v = conv j" by blast
    then have "i \<le> j \<and> j < i + length (k # ks) \<and> v = conv j" by simp
    then show ?thesis by blast
  qed
qed

lemma keysFilter_bound:
  "keysFilter c id 0 ks Map.empty s = Some j \<Longrightarrow> j < length ks"
  using keysFilter_range [of c id 0 ks Map.empty s j] by auto

lemma strict_sorted_le_last:
  "sorted_wrt (<) (xs :: nat list) \<Longrightarrow> x \<in> set xs \<Longrightarrow> x \<le> last xs"
proof (induction xs)
  case Nil
  then show ?case by simp
next
  case (Cons a xs)
  show ?case
  proof (cases "xs = []")
    case True
    with Cons.prems show ?thesis by simp
  next
    case False
    then have l: "last xs \<in> set xs" by simp
    show ?thesis
    proof (cases "x = a")
      case True
      with Cons.prems(1) l False show ?thesis by (auto simp: less_imp_le)
    next
      case neq: False
      with Cons.prems have "x \<in> set xs" "sorted_wrt (<) xs" by auto
      then have "x \<le> last xs" using Cons.IH by simp
      with False show ?thesis by simp
    qed
  qed
qed

lemma strict_sorted_snoc:
  assumes "sorted_wrt (<) (xs :: nat list)" and "xs = [] \<or> last xs < m"
  shows "sorted_wrt (<) (xs @ [m])"
proof -
  have "\<forall>x\<in>set xs. x < m"
  proof
    fix x assume x: "x \<in> set xs"
    then have "xs \<noteq> []" by auto
    with assms(2) have "last xs < m" by simp
    moreover have "x \<le> last xs" using assms(1) x by (rule strict_sorted_le_last)
    ultimately show "x < m" by simp
  qed
  with assms(1) show ?thesis by (simp add: sorted_wrt_append)
qed

lemma aggregate_accounts_append:
  "aggregate_accounts c msk nonce kf n (xs @ ys) st =
     (case aggregate_accounts c msk nonce kf n xs st of
        Inl e \<Rightarrow> Inl e
      | Inr st' \<Rightarrow> aggregate_accounts c msk nonce kf n ys st')"
proof (induction xs arbitrary: st)
  case Nil
  show ?case by (cases st) simp
next
  case (Cons x xs)
  show ?case by (cases st) (simp add: Cons.IH Let_def split: option.split)
qed

lemma aggregate_inputs_append:
  "aggregate_inputs c reader accounts index (xs @ ys) st =
     (case aggregate_inputs c reader accounts index xs st of
        Inl f \<Rightarrow> Inl f
      | Inr st' \<Rightarrow> aggregate_inputs c reader accounts (index + length xs) ys st')"
proof (induction xs arbitrary: index st)
  case Nil
  show ?case by simp
next
  case (Cons x xs)
  obtain signers privKeys pubKeys where st: "st = (signers, privKeys, pubKeys)"
    by (cases st) auto
  show ?case
    by (simp add: st Cons.IH split: sum.split option.split prod.split)
qed

lemma aggregate_accounts_inv:
  assumes "aggregate_accounts c msk nonce kf n accs st = Inr st'"
    and "scan_inv (n + K) st"
    and "\<And>s j. kf s = Some j \<Longrightarrow> j < K"
  shows "scan_inv (n + K) st'"
  using assms(1,2)
proof (induction accs arbitrary: st)
  case Nil
  then show ?case by (cases st) simp
next
  case (Cons acc accs)
  obtain signers privKeys where st: "st = (signers, privKeys)" by (cases st)
  let ?priv = "DeriveGhostPrivateKey c msk (PrivateViewKey acc) (PrivateSpendKey acc) nonce"
  from Cons.prems(1) obtain i where i: "kf (KeyString c (Public c ?priv)) = Some i"
    by (auto simp: st Let_def split: option.splits)
  with Cons.prems(1) have ord: "signers = [] \<or> last signers < n + i"
    and rest: "aggregate_accounts c msk nonce kf n accs (signers @ [n + i], privKeys @ [?priv]) = Inr st'"
    by (auto simp: st Let_def split: if_splits)
  have "i < K" using i by (rule assms(3))
  with ord Cons.prems(2) have "scan_inv (n + K) (signers @ [n + i], privKeys @ [?priv])"
    by (auto simp: scan_inv_def st intro: strict_sorted_snoc)
  with rest show ?case by (rule Cons.IH)
qed

lemma scan_inv_mono: "scan_inv n st \<Longrightarrow> n \<le> n' \<Longrightarrow> scan_inv n' st"
  by (auto simp: scan_inv_def)

lemma aggregate_inputs_inv:
  "aggregate_inputs c reader accounts index ins st = Inr st' \<Longrightarrow> inputs_inv st \<Longrightarrow>
   inputs_inv st'"
proof (induction ins arbitrary: index st)
  case Nil
  then show ?case by simp
next
  case (Cons inp ins)
  obtain signers privKeys pubKeys where st: "st = (signers, privKeys, pubKeys)"
    by (cases st) auto
  from Cons.prems(1) obtain utxo where u: "reader (Hash inp) (Index inp) = Inr (Some utxo)"
    by (auto simp: st split: sum.splits option.splits)
  let ?kf = "keysFilter c id 0 (utxoKeys utxo) Map.empty"
  from Cons.prems(1) u obtain signers' privKeys' where
    accs: "aggregate_accounts c (utxoMask utxo) (Index inp) ?kf (length pubKeys)
             (accounts ! index) (signers, privKeys) = Inr (signers', privKeys')"
    and rest: "aggregate_inputs c reader accounts (Suc index) ins
                 (signers', privKeys', pubKeys @ utxoKeys utxo) = Inr st'"
    by (auto simp: st split: if_splits sum.splits)
  have "scan_inv (length pubKeys + length (utxoKeys utxo)) (signers, privKeys)"
    using Cons.prems(2) by (auto simp: st inputs_inv_def intro: scan_inv_mono)
  with accs have "scan_inv (length pubKeys + length (utxoKeys utxo)) (signers', privKeys')"
    by (rule aggregate_accounts_inv) (rule keysFilter_bound)
  then have "inputs_inv (signers', privKeys', pubKeys @ utxoKeys utxo)"
    by (simp add: inputs_inv_def)
  with rest show ?case by (rule Cons.IH)
qed

lemma aggregate_inputs_result:
  assumes "aggregate_inputs c reader accounts 0 ins ([], [], []) = Inr (signers, privKeys, pubKeys)"
  shows "sorted_wrt (<) signers" and "length privKeys = length signers"
    and "\<forall>m\<in>set signers. m < length pubKeys"
proof -
  have "inputs_inv ([], [], [])" by (simp add: inputs_inv_def scan_inv_def)
  with assms have "inputs_inv (signers, privKeys, pubKeys)" by (rule aggregate_inputs_inv)
  then show "sorted_wrt (<) signers" and "length privKeys = length signers"
    and "\<forall>m\<in>set signers. m < length pubKeys"
    by (simp_all add: inputs_inv_def scan_inv_def)
qed

lemma aggregate_inputs_no_panic:
  "index + length ins \<le> length accounts \<Longrightarrow>
   aggregate_inputs c reader accounts index ins st \<noteq> Inl (Panicked p)"
proof (induction ins arbitrary: index st)
  case Nil
  show ?case by simp
next
  case (Cons inp ins)
  obtain signers privKeys pubKeys where st: "st = (signers, privKeys, pubKeys)"
    by (cases st) auto
  from Cons.prems have "Suc index + length ins \<le> length accounts" by simp
  from Cons.IH [OF this] Cons.prems show ?case
    by (auto simp: st split: sum.splits option.splits)
qed

lemma aggregate_nonces_length:
  "aggregate_nonces c seed pubKeys ms st = Inr st' \<Longrightarrow>
   length (fst st') = length (fst st) + length ms"
proof (induction ms arbitrary: st)
  case Nil
  then show ?case by simp
next
  case (Cons m ms)
  obtain randoms P A where st: "st = (randoms, P, A)" by (cases st) auto
  from Cons.prems obtain r P' A' where
    "aggregate_nonces c seed pubKeys ms (randoms @ [r], P', A') = Inr st'"
    by (auto simp: st Let_def split: option.splits if_splits)
  from Cons.IH [OF this] show ?case by (simp add: st)
qed

lemma aggregate_nonces_no_panic:
  "\<forall>m\<in>set ms. m < length pubKeys \<Longrightarrow>
   aggregate_nonces c seed pubKeys ms st \<noteq> Inl (Panicked p)"
proof (induction ms arbitrary: st)
  case Nil
  show ?case by simp
next
  case (Cons m ms)
  obtain randoms P A where st: "st = (randoms, P, A)" by (cases st) auto
  from Cons.prems have "\<forall>m\<in>set ms. m < length pubKeys" by simp
  from Cons.IH [OF this] Cons.prems show ?case
    by (auto simp: st Let_def split: option.splits)
qed

lemma aggregate_scalars_in_range:
  "i + length ks \<le> length randoms \<Longrightarrow>
   aggregate_scalars c x randoms i ks S \<noteq> Inl (Panicked (IndexOutOfRange a n))"
proof (induction ks arbitrary: i S)
  case Nil
  show ?case by simp
next
  case (Cons k ks)
  from Cons.prems have "Suc i + length ks \<le> length randoms" by simp
  from Cons.IH [OF this] Cons.prems show ?case
    by (auto split: option.splits)
qed

lemma aggregate_in_range:
  assumes "length (Inputs (Transaction stx)) \<le> length accounts"
  shows "aggregate c stx reader accounts seed \<noteq> Inl (Panicked (IndexOutOfRange a n))"
proof (cases "aggregate_inputs c reader accounts 0 (Inputs (Transaction stx)) ([], [], [])")
  case (Inl f)
  moreover have "f \<noteq> Panicked (IndexOutOfRange a n)"
    using aggregate_inputs_no_panic [of 0 "Inputs (Transaction stx)" accounts c reader "([], [], [])"
            "IndexOutOfRange a n"] assms Inl by simp
  ultimately show ?thesis by (simp add: aggregate_def)
next
  case (Inr st)
  obtain signers privKeys pubKeys where st: "st = (signers, privKeys, pubKeys)"
    by (cases st) auto
  note scan = Inr [unfolded st]
  note inv = aggregate_inputs_result [OF scan]
  show ?thesis
  proof (cases "aggregate_nonces c seed pubKeys signers ([], PointIdentity c, PointIdentity c)")
    case (Inl f)
    moreover have "f \<noteq> Panicked (IndexOutOfRange a n)"
      using aggregate_nonces_no_panic [OF inv(3), of c seed "([], PointIdentity c, PointIdentity c)"
              "IndexOutOfRange a n"] Inl by simp
    ultimately show ?thesis by (simp add: aggregate_def scan)
  next
    case nonces: (Inr nst)
    obtain randoms P A where nst: "nst = (randoms, P, A)" by (cases nst) auto
    have "length randoms = length signers"
      using aggregate_nonces_length [OF nonces] by (simp add: nst)
    with inv(2) have "0 + length privKeys \<le> length randoms" by simp
    then have "\<And>x S. aggregate_scalars c x randoms 0 privKeys S
                 \<noteq> Inl (Panicked (IndexOutOfRange a n))"
      by (rule aggregate_scalars_in_range)
    then show ?thesis
      by (auto simp: aggregate_def scan nonces nst Let_def split: option.splits sum.splits)
  qed
qed

lemma aggregate_signers_sorted:
  assumes "aggregate c stx reader accounts seed = Inr agg"
  shows "sorted_wrt (<) (Signers agg)" and "length (Signature agg) = 64"
proof -
  from assms obtain signers privKeys pubKeys where
    scan: "aggregate_inputs c reader accounts 0 (Inputs (Transaction stx)) ([], [], [])
             = Inr (signers, privKeys, pubKeys)"
    by (auto simp: aggregate_def split: sum.splits)
  from assms scan have "Signers agg = signers" and "length (Signature agg) = 64"
    by (auto simp: aggregate_def Let_def copy_bytes_def split: sum.splits option.splits)
  with aggregate_inputs_result(1) [OF scan]
  show "sorted_wrt (<) (Signers agg)" and "length (Signature agg) = 64" by simp_all
qed

lemma aggregate_inputs_cong:
  "\<forall>inp\<in>set ins. r1 (Hash inp) (Index inp) = r2 (Hash inp) (Index inp) \<Longrightarrow>
   aggregate_inputs c r1 accounts index ins st = aggregate_inputs c r2 accounts index ins st"
proof (induction ins arbitrary: index st)
  case Nil
  show ?case by simp
next
  case (Cons inp ins)
  obtain signers privKeys pubKeys where st: "st = (signers, privKeys, pubKeys)"
    by (cases st) auto
  from Cons.prems have "\<forall>inp\<in>set ins. r1 (Hash inp) (Index inp) = r2 (Hash inp) (Index inp)"
    and "r1 (Hash inp) (Index inp) = r2 (Hash inp) (Index inp)" by simp_all
  with Cons.IH show ?case
    by (simp add: st split: sum.split option.split)
qed

lemma aggregate_cong:
  assumes "Inputs (Transaction s1) = Inputs (Transaction s2)"
    and "PayloadHash c s1 = PayloadHash c s2"
    and "\<forall>inp\<in>set (Inputs (Transaction s1)). r1 (Hash inp) (Index inp) = r2 (Hash inp) (Index inp)"
  shows "aggregate c s1 r1 accounts seed = aggregate c s2 r2 accounts seed"
proof -
  have "aggregate_inputs c r1 accounts 0 (Inputs (Transaction s1)) ([], [], []) =
        aggregate_inputs c r2 accounts 0 (Inputs (Transaction s2)) ([], [], [])"
    using aggregate_inputs_cong [OF assms(3), of c accounts 0 "([], [], [])"] assms(1) by simp
  then show ?thesis
    unfolding aggregate_def assms(2) by simp
qed

lemma AggregateSign_error_unchanged:
  "aggregate c stx reader accounts seed = Inl (Returned e) \<Longrightarrow>
   AggregateSign c stx reader accounts seed = Returns (Some e, stx)"
  by (simp add: AggregateSign_def)

lemma aggregate_inputs_order_violation:
  assumes "ins = pre @ inp # post"
    and "aggregate_inputs c reader accounts 0 pre ([], [], []) = Inr (signers, privKeys, pubKeys)"
    and "reader (Hash inp) (Index inp) = Inr (Some utxo)"
    and "length pre < length accounts"
    and "accounts ! length pre = accsa @ acc # accsb"
    and "aggregate_accounts c (utxoMask utxo) (Index inp)
           (keysFilter c id 0 (utxoKeys utxo) Map.empty) (length pubKeys) accsa
           (signers, privKeys) = Inr (signers', privKeys')"
    and "keysFilter c id 0 (utxoKeys utxo) Map.empty
           (KeyString c (Public c (DeriveGhostPrivateKey c (utxoMask utxo) (PrivateViewKey acc)
              (PrivateSpendKey acc) (Index inp)))) = Some i"
    and "signers' \<noteq> []" and "length pubKeys + i \<le> last signers'"
  shows "aggregate_inputs c reader accounts 0 ins ([], [], []) =
           Inl (Returned (InvalidSignersOrder (last signers') (length pubKeys + i)))"
proof -
  let ?kf = "keysFilter c id 0 (utxoKeys utxo) Map.empty"
  have "aggregate_accounts c (utxoMask utxo) (Index inp) ?kf (length pubKeys) (acc # accsb)
          (signers', privKeys') = Inl (InvalidSignersOrder (last signers') (length pubKeys + i))"
    using assms(7,8,9) by (simp add: Let_def)
  then have "aggregate_accounts c (utxoMask utxo) (Index inp) ?kf (length pubKeys)
          (accounts ! length pre) (signers, privKeys)
          = Inl (InvalidSignersOrder (last signers') (length pubKeys + i))"
    using assms(6) by (simp add: assms(5) aggregate_accounts_append)
  then have "aggregate_inputs c reader accounts (length pre) (inp # post)
          (signers, privKeys, pubKeys)
          = Inl (Returned (InvalidSignersOrder (last signers') (length pubKeys + i)))"
    using assms(3,4) by simp
  then show ?thesis
    using assms(2) by (simp add: assms(1) aggregate_inputs_append)
qed

text \<open>
  Claim C2. When \<open>AggregateSign\<close> returns success, the signers it stored are strictly
  ascending. And when the scan, having gone through the inputs \<open>pre\<close> and the
  accounts \<open>accsa\<close> of the next input \<open>inp\<close> with the signers \<open>signers'\<close>
  appended so far, computes for the next account the index \<open>m = len(pubKeys) + i\<close>
  with \<open>m\<close> at most the last appended signer, \<open>AggregateSign\<close> returns the error of
  an invalid signers order and the transaction as it was, so no aggregated signature
  is set.
\<close>

theorem AggregateSign_signers_order:
  "(AggregateSign c stx reader accounts seed = Returns (None, stx') \<longrightarrow>
      (case AggregatedSignature stx' of
         Some agg \<Rightarrow> sorted_wrt (<) (Signers agg)
       | None \<Rightarrow> False)) \<and>
   (Inputs (Transaction stx) = pre @ inp # post \<and>
    aggregate_inputs c reader accounts 0 pre ([], [], []) = Inr (signers, privKeys, pubKeys) \<and>
    reader (Hash inp) (Index inp) = Inr (Some utxo) \<and>
    length pre < length accounts \<and>
    accounts ! length pre = accsa @ acc # accsb \<and>
    aggregate_accounts c (utxoMask utxo) (Index inp)
      (keysFilter c id 0 (utxoKeys utxo) Map.empty) (length pubKeys) accsa
      (signers, privKeys) = Inr (signers', privKeys') \<and>
    keysFilter c id 0 (utxoKeys utxo) Map.empty
      (KeyString c (Public c (DeriveGhostPrivateKey c (utxoMask utxo) (PrivateViewKey acc)
         (PrivateSpendKey acc) (Index inp)))) = Some i \<and>
    signers' \<noteq> [] \<and> length pubKeys + i \<le> last signers' \<longrightarrow>
    AggregateSign c stx reader accounts seed =
      Returns (Some (InvalidSignersOrder (last signers') (length pubKeys + i)), stx))"
proof (intro conjI impI)
  assume "AggregateSign c stx reader accounts seed = Returns (None, stx')"
  then obtain agg where "aggregate c stx reader accounts seed = Inr agg"
    and "AggregatedSignature stx' = Some agg"
    by (auto simp: AggregateSign_def split: sum.splits fault.splits)
  with aggregate_signers_sorted(1) [of c stx reader accounts seed agg]
  show "case AggregatedSignature stx' of
          Some agg \<Rightarrow> sorted_wrt (<) (Signers agg) | None \<Rightarrow> False"
    by simp
next
  assume h: "Inputs (Transaction stx) = pre @ inp # post \<and>
    aggregate_inputs c reader accounts 0 pre ([], [], []) = Inr (signers, privKeys, pubKeys) \<and>
    reader (Hash inp) (Index inp) = Inr (Some utxo) \<and>
    length pre < length accounts \<and>
    accounts ! length pre = accsa @ acc # accsb \<and>
    aggregate_accounts c (utxoMask utxo) (Index inp)
      (keysFilter c id 0 (utxoKeys utxo) Map.empty) (length pubKeys) accsa
      (signers, privKeys) = Inr (signers', privKeys') \<and>
    keysFilter c id 0 (utxoKeys utxo) Map.empty
      (KeyString c (Public c (DeriveGhostPrivateKey c (utxoMask utxo) (PrivateViewKey acc)
         (PrivateSpendKey acc) (Index inp)))) = Some i \<and>
    signers' \<noteq> [] \<and> length pubKeys + i \<le> last signers'"
  have "aggregate_inputs c reader accounts 0 (Inputs (Transaction stx)) ([], [], []) =
          Inl (Returned (InvalidSignersOrder (last signers') (length pubKeys + i)))"
    by (rule aggregate_inputs_order_violation [of _ pre inp post c reader accounts signers
          privKeys pubKeys utxo accsa acc accsb signers' privKeys' i]) (use h in simp_all)
  then have "aggregate c stx reader accounts seed =
          Inl (Returned (InvalidSignersOrder (last signers') (length pubKeys + i)))"
    by (simp add: aggregate_def)
  then show "AggregateSign c stx reader accounts seed =
      Returns (Some (InvalidSignersOrder (last signers') (length pubKeys + i)), stx)"
    by (rule AggregateSign_error_unchanged)
qed


theorem AggregateSign_signers_order_witness:
  "AggregateSign test_primitives test_signed test_reader [[test_account 1, test_account 2]] [5] =
     Returns (None, test_signed\<lparr>AggregatedSignature := Some test_aggregated\<rparr>) \<and>
   sorted_wrt (<) (Signers test_aggregated) \<and>
   Inputs (Transaction test_signed) = [] @ plain_input # [] \<and>
   aggregate_inputs test_primitives test_reader [[test_account 2, test_account 1]] 0 []
     ([], [], []) = Inr ([], [], []) \<and>
   test_reader (Hash plain_input) (Index plain_input) = Inr (Some test_utxo) \<and>
   [[test_account 2, test_account 1]] ! length ([] :: Input list) =
     [test_account 2] @ test_account 1 # [] \<and>
   aggregate_accounts test_primitives (utxoMask test_utxo) (Index plain_input)
     (keysFilter test_primitives id 0 (utxoKeys test_utxo) Map.empty)
     (length ([] :: key list)) [test_account 2] ([], []) = Inr ([1], [[2]]) \<and>
   keysFilter test_primitives id 0 (utxoKeys test_utxo) Map.empty
     (KeyString test_primitives (Public test_primitives
        (DeriveGhostPrivateKey test_primitives (utxoMask test_utxo)
           (PrivateViewKey (test_account 1)) (PrivateSpendKey (test_account 1))
           (Index plain_input)))) = Some 0 \<and>
   length ([] :: key list) + 0 \<le> last [1] \<and>
   AggregateSign test_primitives test_signed test_reader [[test_account 2, test_account 1]] [5] =
     Returns (Some (InvalidSignersOrder 1 0), test_signed)"
proof -
  have ok: "AggregateSign test_primitives test_signed test_reader
              [[test_account 1, test_account 2]] [5] =
            Returns (None, test_signed\<lparr>AggregatedSignature := Some test_aggregated\<rparr>)"
    by (simp add: AggregateSign_def test_aggregate)
  have h1: "Inputs (Transaction test_signed) = [] @ plain_input # []"
    by (simp add: test_signed_inputs)
  have h2: "aggregate_inputs test_primitives test_reader [[test_account 2, test_account 1]] 0 []
     ([], [], []) = Inr ([], [], [])"
    by simp
  have h3: "test_reader (Hash plain_input) (Index plain_input) = Inr (Some test_utxo)"
    by (simp add: test_reader_def plain_input_def)
  have h4: "[[test_account 2, test_account 1]] ! length ([] :: Input list) =
     [test_account 2] @ test_account 1 # []"
    by simp
  have h5: "aggregate_accounts test_primitives (utxoMask test_utxo) (Index plain_input)
     (keysFilter test_primitives id 0 (utxoKeys test_utxo) Map.empty) (length ([] :: key list))
     [test_account 2] ([], []) = Inr ([1], [[2]])"
    by (simp add: fixture_defs)
  have h6: "keysFilter test_primitives id 0 (utxoKeys test_utxo) Map.empty
     (KeyString test_primitives (Public test_primitives
        (DeriveGhostPrivateKey test_primitives (utxoMask test_utxo)
           (PrivateViewKey (test_account 1)) (PrivateSpendKey (test_account 1))
           (Index plain_input)))) = Some 0"
    by (simp add: fixture_defs)
  note inst = AggregateSign_signers_order
      [where c = test_primitives and stx = test_signed and reader = test_reader
         and seed = "[5]" and pre = "[]" and inp = plain_input and post = "[]"
         and signers = "[]" and privKeys = "[]" and pubKeys = "[]" and utxo = test_utxo
         and accsa = "[test_account 2]" and acc = "test_account 1" and accsb = "[]"
         and signers' = "[1]" and privKeys' = "[[2]]" and i = 0]
  have s: "sorted_wrt (<) (Signers test_aggregated)"
    using inst [where accounts = "[[test_account 1, test_account 2]]"
                  and stx' = "test_signed\<lparr>AggregatedSignature := Some test_aggregated\<rparr>",
                THEN conjunct1, THEN mp, OF ok]
    by simp
  have "AggregateSign test_primitives test_signed test_reader
               [[test_account 2, test_account 1]] [5] =
             Returns (Some (InvalidSignersOrder (last [1]) (length ([] :: key list) + 0)),
                      test_signed)"
    by (rule inst [where accounts = "[[test_account 2, test_account 1]]" and stx' = test_signed,
                   THEN conjunct2, THEN mp])
       (intro conjI h1 h2 h3 h4 h5 h6; simp)
  then have bad: "AggregateSign test_primitives test_signed test_reader
               [[test_account 2, test_account 1]] [5] =
             Returns (Some (InvalidSignersOrder 1 0), test_signed)"
    by simp
  from ok s h1 h2 h3 h4 h5 h6 bad show ?thesis by (intro conjI) simp_all
qed

text \<open>
  Claim C3. Two successful calls of \<open>AggregateSign\<close> with the same accounts and seed,
  on transactions with the same inputs and payload hash, with readers that answer
  alike on these inputs, store the same aggregated signature, signers and signature
  bytes; the signature has 64 bytes. This covers the second call on the same
  transaction with the same reader.
\<close>

theorem AggregateSign_deterministic:
  assumes "AggregateSign c s1 r1 accounts seed = Returns (None, s1')"
    and "AggregateSign c s2 r2 accounts seed = Returns (None, s2')"
    and "Inputs (Transaction s1) = Inputs (Transaction s2)"
    and "PayloadHash c s1 = PayloadHash c s2"
    and "\<forall>inp\<in>set (Inputs (Transaction s1)).
           r1 (Hash inp) (Index inp) = r2 (Hash inp) (Index inp)"
  shows "AggregatedSignature s1' = AggregatedSignature s2' \<and>
         (case AggregatedSignature s1' of
            Some agg \<Rightarrow> length (Signature agg) = 64
          | None \<Rightarrow> False)"
proof -
  have eq: "aggregate c s1 r1 accounts seed = aggregate c s2 r2 accounts seed"
    using assms(3,4,5) by (rule aggregate_cong)
  from assms(1) obtain agg where a1: "aggregate c s1 r1 accounts seed = Inr agg"
    and s1': "AggregatedSignature s1' = Some agg"
    by (auto simp: AggregateSign_def split: sum.splits fault.splits)
  from eq a1 have "aggregate c s2 r2 accounts seed = Inr agg" by simp
  with assms(2) have "AggregatedSignature s2' = Some agg"
    by (auto simp: AggregateSign_def)
  with s1' aggregate_signers_sorted(2) [OF a1] show ?thesis by simp
qed

theorem AggregateSign_deterministic_witness:
  "AggregateSign test_primitives test_signed test_reader [[test_account 1, test_account 2]] [5] =
     Returns (None, test_signed\<lparr>AggregatedSignature := Some test_aggregated\<rparr>) \<and>
   AggregateSign test_primitives (test_signed\<lparr>AggregatedSignature := Some test_aggregated\<rparr>)
     test_reader [[test_account 1, test_account 2]] [5] =
     Returns (None, test_signed\<lparr>AggregatedSignature := Some test_aggregated\<rparr>) \<and>
   PayloadHash test_primitives test_signed =
     PayloadHash test_primitives (test_signed\<lparr>AggregatedSignature := Some test_aggregated\<rparr>) \<and>
   length (Signature test_aggregated) = 64"
proof -
  let ?s2 = "test_signed\<lparr>AggregatedSignature := Some test_aggregated\<rparr>"
  have c1: "AggregateSign test_primitives test_signed test_reader
              [[test_account 1, test_account 2]] [5] = Returns (None, ?s2)"
    by (simp add: AggregateSign_def test_aggregate)
  have c2: "AggregateSign test_primitives ?s2 test_reader
              [[test_account 1, test_account 2]] [5] = Returns (None, ?s2)"
    by (simp add: AggregateSign_def test_aggregate_again)
  have ph: "PayloadHash test_primitives test_signed = PayloadHash test_primitives ?s2"
    by (simp add: test_primitives_def)
  from AggregateSign_deterministic [OF c1 c2 _ ph]
  have "length (Signature test_aggregated) = 64" by simp
  with c1 c2 ph show ?thesis by simp
qed

text \<open>
  Claim C10, as the code has it. \<open>AggregateSign\<close> reads \<open>accounts[index]\<close> with no
  check of the length. With at least as many account lists as inputs no index is out
  of range anywhere in the call. With fewer, the call never succeeds: the scan of the
  inputs that have an account list cannot panic; if it fails, its error is returned;
  otherwise the reader is asked for the first input without an account list, its
  error or the error of a missing input is returned if it has no UTXO, and only when
  it answers with a UTXO the access \<open>accounts[index]\<close> panics.
\<close>

theorem AggregateSign_accounts_range:
  "(length (Inputs (Transaction stx)) \<le> length accounts \<longrightarrow>
      AggregateSign c stx reader accounts seed \<noteq> Panics (IndexOutOfRange a n)) \<and>
   (length accounts < length (Inputs (Transaction stx)) \<longrightarrow>
      AggregateSign c stx reader accounts seed =
        (case aggregate_inputs c reader accounts 0
                (take (length accounts) (Inputs (Transaction stx))) ([], [], []) of
           Inl (Returned err) \<Rightarrow> Returns (Some err, stx)
         | Inl (Panicked p) \<Rightarrow> Panics p
         | Inr st \<Rightarrow>
             (case reader (Hash (Inputs (Transaction stx) ! length accounts))
                          (Index (Inputs (Transaction stx) ! length accounts)) of
                Inl err \<Rightarrow> Returns (Some err, stx)
              | Inr None \<Rightarrow>
                  Returns (Some (InputNotFound (Hash (Inputs (Transaction stx) ! length accounts))
                                   (Index (Inputs (Transaction stx) ! length accounts))), stx)
              | Inr (Some utxo) \<Rightarrow>
                  Panics (IndexOutOfRange (int (length accounts)) (length accounts)))) \<and>
      aggregate_inputs c reader accounts 0
        (take (length accounts) (Inputs (Transaction stx))) ([], [], []) \<noteq> Inl (Panicked p))"
proof (intro conjI impI)
  assume "length (Inputs (Transaction stx)) \<le> length accounts"
  then have "aggregate c stx reader accounts seed \<noteq> Inl (Panicked (IndexOutOfRange a n))"
    by (rule aggregate_in_range)
  then show "AggregateSign c stx reader accounts seed \<noteq> Panics (IndexOutOfRange a n)"
    by (auto simp: AggregateSign_def split: sum.splits fault.splits)
next
  assume short: "length accounts < length (Inputs (Transaction stx))"
  let ?ins = "Inputs (Transaction stx)"
  let ?n = "length accounts"
  have split: "?ins = take ?n ?ins @ (?ins ! ?n) # drop (Suc ?n) ?ins"
    using short by (simp add: id_take_nth_drop)
  have len: "length (take ?n ?ins) = ?n" using short by simp
  have scan: "aggregate_inputs c reader accounts 0 ?ins ([], [], []) =
      (case aggregate_inputs c reader accounts 0 (take ?n ?ins) ([], [], []) of
         Inl f \<Rightarrow> Inl f
       | Inr st \<Rightarrow> aggregate_inputs c reader accounts ?n (?ins ! ?n # drop (Suc ?n) ?ins) st)"
    using aggregate_inputs_append [of c reader accounts 0 "take ?n ?ins"
            "(?ins ! ?n) # drop (Suc ?n) ?ins" "([], [], [])"] split len
    by (simp split: sum.split)
  have step: "\<And>st. aggregate_inputs c reader accounts ?n (?ins ! ?n # drop (Suc ?n) ?ins) st =
      (case reader (Hash (?ins ! ?n)) (Index (?ins ! ?n)) of
         Inl err \<Rightarrow> Inl (Returned err)
       | Inr None \<Rightarrow> Inl (Returned (InputNotFound (Hash (?ins ! ?n)) (Index (?ins ! ?n))))
       | Inr (Some utxo) \<Rightarrow> Inl (Panicked (IndexOutOfRange (int ?n) ?n)))"
  proof -
    fix st :: "nat list \<times> key list \<times> key list"
    obtain signers privKeys pubKeys where st: "st = (signers, privKeys, pubKeys)"
      by (cases st) auto
    show "aggregate_inputs c reader accounts ?n (?ins ! ?n # drop (Suc ?n) ?ins) st =
      (case reader (Hash (?ins ! ?n)) (Index (?ins ! ?n)) of
         Inl err \<Rightarrow> Inl (Returned err)
       | Inr None \<Rightarrow> Inl (Returned (InputNotFound (Hash (?ins ! ?n)) (Index (?ins ! ?n))))
       | Inr (Some utxo) \<Rightarrow> Inl (Panicked (IndexOutOfRange (int ?n) ?n)))"
      by (simp add: st split: sum.split option.split)
  qed
  show "AggregateSign c stx reader accounts seed =
        (case aggregate_inputs c reader accounts 0 (take ?n ?ins) ([], [], []) of
           Inl (Returned err) \<Rightarrow> Returns (Some err, stx)
         | Inl (Panicked p) \<Rightarrow> Panics p
         | Inr st \<Rightarrow>
             (case reader (Hash (?ins ! ?n)) (Index (?ins ! ?n)) of
                Inl err \<Rightarrow> Returns (Some err, stx)
              | Inr None \<Rightarrow>
                  Returns (Some (InputNotFound (Hash (?ins ! ?n)) (Index (?ins ! ?n))), stx)
              | Inr (Some utxo) \<Rightarrow> Panics (IndexOutOfRange (int ?n) ?n)))"
    by (simp add: AggregateSign_def aggregate_def scan step
          split: sum.split fault.split option.split)
  show "aggregate_inputs c reader accounts 0 (take ?n ?ins) ([], [], []) \<noteq> Inl (Panicked p)"
    by (rule aggregate_inputs_no_panic) (simp add: len)
qed

theorem AggregateSign_accounts_range_witness:
  "length (Inputs (Transaction test_signed)) \<le> length [[test_account 1, test_account 2]] \<and>
   AggregateSign test_primitives test_signed test_reader [[test_account 1, test_account 2]] [5]
     \<noteq> Panics (IndexOutOfRange 0 0) \<and>
   length ([] :: Address list list) < length (Inputs (Transaction test_signed)) \<and>
   AggregateSign test_primitives test_signed test_reader [] [5] = Panics (IndexOutOfRange 0 0)"
proof -
  have i: "Inputs (Transaction test_signed) = [plain_input]" by (rule test_signed_inputs)
  have r: "test_reader (Hash plain_input) (Index plain_input) = Inr (Some test_utxo)"
    by (simp add: test_reader_def plain_input_def)
  from AggregateSign_accounts_range
         [where stx = test_signed and accounts = "[[test_account 1, test_account 2]]"
            and c = test_primitives and reader = test_reader and seed = "[5]"
            and a = 0 and n = 0]
  have a: "AggregateSign test_primitives test_signed test_reader
             [[test_account 1, test_account 2]] [5] \<noteq> Panics (IndexOutOfRange 0 0)"
    by (simp add: i)
  from AggregateSign_accounts_range
         [where stx = test_signed and accounts = "[]" and c = test_primitives
            and reader = test_reader and seed = "[5]"]
  have b: "AggregateSign test_primitives test_signed test_reader [] [5]
             = Panics (IndexOutOfRange 0 0)"
    by (simp add: i r)
  from a b show ?thesis by (simp add: i)
qed

text \<open>
  Claim C10 as it is written fails: a shorter accounts list does not always end in an
  out-of-range access. With one input the reader does not know and no account list,
  the error of the missing input is returned, before \<open>accounts[index]\<close> is read.
\<close>

theorem AggregateSign_short_accounts_reader_fails:
  "length ([] :: Address list list) < length (Inputs (Transaction (with_inputs [unknown_input] []))) \<and>
   AggregateSign test_primitives (with_inputs [unknown_input] []) test_reader [] [5] =
     Returns (Some (InputNotFound [8] 0), with_inputs [unknown_input] [])"
  by (simp add: AggregateSign_def aggregate_def with_inputs_def unknown_input_def test_reader_def)

section \<open>Properties of sequences of signing calls\<close>

lemma appends_one_fields:
  assumes "appends_one stx stx'"
  shows "AggregatedSignature stx' = AggregatedSignature stx"
    and "Transaction stx' = Transaction stx"
proof -
  let ?s = "stx\<lparr>SignaturesMap := SignaturesMap stx @ [last (SignaturesMap stx')]\<rparr>"
  from assms have eq: "stx' = ?s" by (simp add: appends_one_def)
  have "AggregatedSignature stx' = AggregatedSignature ?s" by (rule arg_cong [OF eq])
  then show "AggregatedSignature stx' = AggregatedSignature stx" by simp
  have "Transaction stx' = Transaction ?s" by (rule arg_cong [OF eq])
  then show "Transaction stx' = Transaction stx" by simp
qed

lemma apply_sign_keeps_aggregated:
  assumes "\<not> is_aggregate op" and "apply_sign c stx op = Returns stx'"
  shows "AggregatedSignature stx' = AggregatedSignature stx"
proof (cases op)
  case (OpSignUTXO utxo accounts)
  obtain err where r: "SignUTXO c stx utxo accounts = (err, stx')"
    using assms(2) OpSignUTXO by (cases "SignUTXO c stx utxo accounts") simp
  from SignUTXO_append [OF r] show ?thesis
    by (auto split: if_splits dest: appends_one_fields(1))
next
  case (OpSignInput reader index accounts)
  obtain err where r: "SignInput c stx reader index accounts = Returns (err, stx')"
    using assms(2) OpSignInput
    by (cases "SignInput c stx reader index accounts") (auto split: prod.splits)
  from SignInput_append [OF r] show ?thesis
    by (auto split: if_splits dest: appends_one_fields(1))
next
  case (OpSignRaw k)
  obtain err where r: "SignRaw c stx k = (err, stx')"
    using assms(2) OpSignRaw by (cases "SignRaw c stx k") simp
  from SignRaw_append [OF r] show ?thesis
    by (auto split: if_splits dest: appends_one_fields(1))
next
  case (OpAggregateSign reader accounts seed)
  with assms(1) show ?thesis by simp
qed

lemma apply_sign_keeps_signatures:
  assumes "is_aggregate op" and "apply_sign c stx op = Returns stx'"
  shows "SignaturesMap stx' = SignaturesMap stx"
proof (cases op)
  case (OpAggregateSign reader accounts seed)
  with assms(2) show ?thesis
    by (auto simp: AggregateSign_def split: sum.splits fault.splits)
qed (use assms(1) in simp_all)

lemma run_signers_keeps_aggregated:
  "\<forall>op\<in>set ops. \<not> is_aggregate op \<Longrightarrow> run_signers c stx ops = Returns stx' \<Longrightarrow>
   AggregatedSignature stx' = AggregatedSignature stx"
proof (induction ops arbitrary: stx)
  case Nil
  then show ?case by simp
next
  case (Cons op ops)
  from Cons.prems(2) obtain mid where m: "apply_sign c stx op = Returns mid"
    and rest: "run_signers c mid ops = Returns stx'"
    by (auto split: outcome.splits)
  from Cons.prems(1) have "\<not> is_aggregate op" and "\<forall>op\<in>set ops. \<not> is_aggregate op"
    by simp_all
  with m rest Cons.IH [of mid] apply_sign_keeps_aggregated [of op c stx mid]
  show ?case by simp
qed

lemma run_signers_keeps_signatures:
  "\<forall>op\<in>set ops. is_aggregate op \<Longrightarrow> run_signers c stx ops = Returns stx' \<Longrightarrow>
   SignaturesMap stx' = SignaturesMap stx"
proof (induction ops arbitrary: stx)
  case Nil
  then show ?case by simp
next
  case (Cons op ops)
  from Cons.prems(2) obtain mid where m: "apply_sign c stx op = Returns mid"
    and rest: "run_signers c mid ops = Returns stx'"
    by (auto split: outcome.splits)
  from Cons.prems(1) have "is_aggregate op" and "\<forall>op\<in>set ops. is_aggregate op"
    by simp_all
  with m rest Cons.IH [of mid] apply_sign_keeps_signatures [of op c stx mid]
  show ?case by simp
qed

text \<open>
  Claim C9, as the code has it. No signer looks at the field of the other path: the
  per-input signers never change \<open>AggregatedSignature\<close>, and \<open>AggregateSign\<close>
  never changes \<open>SignaturesMap\<close>. So for a transaction built by the constructors and
  promoted with both fields empty, after any sequence of calls of the per-input
  signers alone no aggregated signature is set, and after any sequence of calls of
  \<open>AggregateSign\<close> alone \<open>SignaturesMap\<close> is empty: the two fields are not both
  populated as long as the caller keeps to one of the two paths.
\<close>

theorem signing_paths_write_own_field:
  assumes "run_signers c
             \<lparr>Transaction = build c asset bops, AggregatedSignature = None, SignaturesMap = []\<rparr>
             ops = Returns stx'"
  shows "((\<forall>op\<in>set ops. \<not> is_aggregate op) \<longrightarrow> AggregatedSignature stx' = None) \<and>
         ((\<forall>op\<in>set ops. is_aggregate op) \<longrightarrow> SignaturesMap stx' = [])"
  using run_signers_keeps_aggregated [OF _ assms] run_signers_keeps_signatures [OF _ assms]
  by simp

theorem signing_paths_write_own_field_witness:
  "run_signers test_primitives test_signed
     [OpSignInput test_reader 0 [test_account 1], OpSignUTXO test_utxo [test_account 2]] =
     Returns (test_signed\<lparr>SignaturesMap := [[0 \<mapsto> [1, 5, 1]], [1 \<mapsto> [2, 5, 1]]]\<rparr>) \<and>
   AggregatedSignature
     (test_signed\<lparr>SignaturesMap := [[0 \<mapsto> [1, 5, 1]], [1 \<mapsto> [2, 5, 1]]]\<rparr>) = None \<and>
   run_signers test_primitives test_signed
     [OpAggregateSign test_reader [[test_account 1, test_account 2]] [5]] =
     Returns (test_signed\<lparr>AggregatedSignature := Some test_aggregated\<rparr>) \<and>
   SignaturesMap (test_signed\<lparr>AggregatedSignature := Some test_aggregated\<rparr>) = []"
proof -
  have r1: "run_signers test_primitives test_signed
     [OpSignInput test_reader 0 [test_account 1], OpSignUTXO test_utxo [test_account 2]] =
     Returns (test_signed\<lparr>SignaturesMap := [[0 \<mapsto> [1, 5, 1]], [1 \<mapsto> [2, 5, 1]]]\<rparr>)"
    by (simp add: SignInput_def SignUTXO_def Let_def fixture_defs)
  have r2: "run_signers test_primitives test_signed
     [OpAggregateSign test_reader [[test_account 1, test_account 2]] [5]] =
     Returns (test_signed\<lparr>AggregatedSignature := Some test_aggregated\<rparr>)"
    by (simp add: AggregateSign_def test_aggregate)
  have a: "AggregatedSignature
     (test_signed\<lparr>SignaturesMap := [[0 \<mapsto> [1, 5, 1]], [1 \<mapsto> [2, 5, 1]]]\<rparr>) = None"
    using signing_paths_write_own_field [OF r1 [unfolded test_signed_built]]
    by (simp add: test_signed_def)
  have b: "SignaturesMap (test_signed\<lparr>AggregatedSignature := Some test_aggregated\<rparr>) = []"
    using signing_paths_write_own_field [OF r2 [unfolded test_signed_built]]
    by (simp add: test_signed_def)
  from r1 a r2 b show ?thesis by (intro conjI)
qed

text \<open>
  Claim C9 as it is written fails: nothing in the signers keeps a caller from using
  both paths. On the test transaction, built by the constructors, \<open>SignInput\<close>
  followed by \<open>AggregateSign\<close> succeeds twice and leaves both fields populated.
\<close>

theorem signing_paths_both_populated:
  "test_signed =
     \<lparr>Transaction = build test_primitives [1]
        [OpAddInput [7] 0, OpAddOutputWithType 0x00 [test_account 1] [] 10 [4]],
      AggregatedSignature = None, SignaturesMap = []\<rparr> \<and>
   run_signers test_primitives test_signed
     [OpSignInput test_reader 0 [test_account 1],
      OpAggregateSign test_reader [[test_account 1, test_account 2]] [5]] =
     Returns (test_signed\<lparr>SignaturesMap := [[0 \<mapsto> [1, 5, 1]]],
                           AggregatedSignature := Some test_aggregated\<rparr>) \<and>
   AggregatedSignature
     (test_signed\<lparr>SignaturesMap := [[0 \<mapsto> [1, 5, 1]]],
                  AggregatedSignature := Some test_aggregated\<rparr>) \<noteq> None \<and>
   SignaturesMap
     (test_signed\<lparr>SignaturesMap := [[0 \<mapsto> [1, 5, 1]]],
                  AggregatedSignature := Some test_aggregated\<rparr>) \<noteq> []"
proof -
  have s: "SignInput test_primitives test_signed test_reader 0 [test_account 1] =
             Returns (None, test_signed\<lparr>SignaturesMap := [[0 \<mapsto> [1, 5, 1]]]\<rparr>)"
    by (simp add: SignInput_def Let_def fixture_defs)
  have "run_signers test_primitives test_signed
     [OpSignInput test_reader 0 [test_account 1],
      OpAggregateSign test_reader [[test_account 1, test_account 2]] [5]] =
     Returns (test_signed\<lparr>SignaturesMap := [[0 \<mapsto> [1, 5, 1]]],
                           AggregatedSignature := Some test_aggregated\<rparr>)"
    by (simp add: s AggregateSign_def test_aggregate_after_signing)
  with test_signed_built show ?thesis by simp
qed

end
